theory Spec2Isabelle
  imports Main "HOL-Library.Sublist"
begin

section \<open>Go strings\<close>

text \<open>
  A Go string is a sequence of bytes; it is modelled as a \<^typ>\<open>string\<close>, one
  \<^typ>\<open>char\<close> per byte. The functions of packages \<open>unicode/utf8\<close>, \<open>unicode\<close> and
  \<open>strings\<close> that the transport calls are written out below. A rune is a natural number.
\<close>

subsection \<open>Runes (\<open>unicode/utf8\<close>, \<open>unicode\<close>)\<close>

definition RuneError :: nat where
  "RuneError = 0xFFFD"

text \<open>\<open>unicode.IsSpace\<close>: the code points with the property \<open>White_Space\<close>.\<close>

definition IsSpace :: "nat \<Rightarrow> bool" where
  "IsSpace r \<longleftrightarrow>
     9 \<le> r \<and> r \<le> 13 \<or> r = 0x20 \<or> r = 0x85 \<or> r = 0xA0 \<or> r = 0x1680
     \<or> 0x2000 \<le> r \<and> r \<le> 0x200A \<or> r = 0x2028 \<or> r = 0x2029 \<or> r = 0x202F
     \<or> r = 0x205F \<or> r = 0x3000"

text \<open>A continuation byte lies between \<open>locb\<close> and \<open>hicb\<close>; \<open>utf8.RuneStart\<close> is its negation.\<close>

definition is_cont :: "nat \<Rightarrow> bool" where
  "is_cont b \<longleftrightarrow> 0x80 \<le> b \<and> b \<le> 0xBF"

definition RuneStart :: "char \<Rightarrow> bool" where
  "RuneStart c \<longleftrightarrow> \<not> is_cont (of_char c)"

text \<open>
  The table \<open>first\<close> of package \<open>utf8\<close>, for a first byte from \<open>0x80\<close> on: the length
  of the encoding and the range \<open>acceptRanges\<close> gives for the second byte; None for a
  byte that starts no encoding (\<open>xx\<close> in the table).
\<close>

definition first :: "nat \<Rightarrow> (nat \<times> nat \<times> nat) option" where
  "first s0 =
     (if s0 < 0xC2 then None
      else if s0 < 0xE0 then Some (2, 0x80, 0xBF)
      else if s0 = 0xE0 then Some (3, 0xA0, 0xBF)
      else if s0 = 0xED then Some (3, 0x80, 0x9F)
      else if s0 < 0xF0 then Some (3, 0x80, 0xBF)
      else if s0 = 0xF0 then Some (4, 0x90, 0xBF)
      else if s0 < 0xF4 then Some (4, 0x80, 0xBF)
      else if s0 = 0xF4 then Some (4, 0x80, 0x8F)
      else None)"

text \<open>The code point of an encoding of two, three and four bytes (\<open>mask2\<close>, \<open>mask3\<close>,
  \<open>mask4\<close> and \<open>maskx\<close> keep the low five, four, three and six bits).\<close>

definition rune2 :: "nat \<Rightarrow> nat \<Rightarrow> nat" where
  "rune2 s0 s1 = (s0 mod 32) * 64 + s1 mod 64"

definition rune3 :: "nat \<Rightarrow> nat \<Rightarrow> nat \<Rightarrow> nat" where
  "rune3 s0 s1 s2 = (s0 mod 16) * 4096 + (s1 mod 64) * 64 + s2 mod 64"

definition rune4 :: "nat \<Rightarrow> nat \<Rightarrow> nat \<Rightarrow> nat \<Rightarrow> nat" where
  "rune4 s0 s1 s2 s3 =
     (s0 mod 8) * 262144 + (s1 mod 64) * 4096 + (s2 mod 64) * 64 + s3 mod 64"

text \<open>
  \<open>utf8.DecodeRuneInString\<close>: the first rune of the string and its width in bytes;
  \<open>(RuneError, 1)\<close> for an encoding that is invalid or cut short, \<open>(RuneError, 0)\<close> for
  the empty string.
\<close>

definition DecodeRuneInString :: "string \<Rightarrow> nat \<times> nat" where
  "DecodeRuneInString s =
     (case s of
        [] \<Rightarrow> (RuneError, 0)
      | c0 # rest \<Rightarrow>
          (let s0 = (of_char c0 :: nat) in
           if s0 < 0x80 then (s0, 1)
           else
             (case first s0 of
                None \<Rightarrow> (RuneError, 1)
              | Some (sz, lo, hi) \<Rightarrow>
                  if length s < sz then (RuneError, 1)
                  else
                    (let s1 = (of_char (s ! 1) :: nat) in
                     if s1 < lo \<or> hi < s1 then (RuneError, 1)
                     else if sz \<le> 2 then (rune2 s0 s1, 2)
                     else
                       (let s2 = (of_char (s ! 2) :: nat) in
                        if \<not> is_cont s2 then (RuneError, 1)
                        else if sz \<le> 3 then (rune3 s0 s1 s2, 3)
                        else
                          (let s3 = (of_char (s ! 3) :: nat) in
                           if \<not> is_cont s3 then (RuneError, 1)
                           else (rune4 s0 s1 s2 s3, 4)))))))"

text \<open>
  \<open>utf8.DecodeLastRuneInString\<close>: the last rune of the string and its width. The loop
  walks back from the last byte, over at most three bytes, to a byte that starts a
  rune (\<open>last_start\<close>), and the rune decoded there counts only if it ends where the
  string ends.
\<close>

definition last_start :: "string \<Rightarrow> nat" where
  "last_start s =
     (let n = length s; lim = n - 4
      in case find (\<lambda>i. RuneStart (s ! i)) (rev [lim ..< n - 1]) of
           Some i \<Rightarrow> i
         | None \<Rightarrow> lim - 1)"

definition DecodeLastRuneInString :: "string \<Rightarrow> nat \<times> nat" where
  "DecodeLastRuneInString s =
     (let n = length s in
      if n = 0 then (RuneError, 0)
      else if (of_char (s ! (n - 1)) :: nat) < 0x80 then (of_char (s ! (n - 1)), 1)
      else
        (let start = last_start s;
             (r, size) = DecodeRuneInString (drop start s)
         in if start + size \<noteq> n then (RuneError, 1) else (r, size)))"

subsection \<open>Package \<open>strings\<close>\<close>

text \<open>
  \<open>strings.TrimLeftFunc(s, unicode.IsSpace)\<close>: the string from its first rune that is
  not white space on, empty when there is none.
\<close>

function TrimLeftFunc :: "string \<Rightarrow> string" where
  "TrimLeftFunc [] = []"
| "TrimLeftFunc (c # cs) =
     (let (r, size) = DecodeRuneInString (c # cs)
      in if IsSpace r then TrimLeftFunc (drop size (c # cs)) else c # cs)"
  by pat_completeness auto

text \<open>
  \<open>lastIndexFunc(s, unicode.IsSpace, false)\<close>: the index at which the last rune that is
  not white space starts, \<open>-1\<close> when there is none. The argument is the part \<open>s[0:i]\<close> of
  the string that the loop has not yet passed.
\<close>

function lastIndexFunc :: "string \<Rightarrow> int" where
  "lastIndexFunc [] = - 1"
| "lastIndexFunc (c # cs) =
     (let (r, size) = DecodeLastRuneInString (c # cs)
      in if \<not> IsSpace r then int (length (c # cs) - size)
         else lastIndexFunc (take (length (c # cs) - size) (c # cs)))"
  by pat_completeness auto

text \<open>
  \<open>strings.TrimRightFunc(s, unicode.IsSpace)\<close>: the string up to the end of its last
  rune that is not white space. The end is the index \<open>i\<close> that \<open>lastIndexFunc\<close> returns
  plus the width of the rune decoded at \<open>s[i:]\<close>, or \<open>i + 1\<close> for an ASCII byte and for
  \<open>i = -1\<close>.
\<close>

definition TrimRightFunc :: "string \<Rightarrow> string" where
  "TrimRightFunc s =
     (let i = lastIndexFunc s
      in if 0 \<le> i \<and> 0x80 \<le> (of_char (s ! nat i) :: nat)
         then take (nat i + snd (DecodeRuneInString (drop (nat i) s))) s
         else take (nat (i + 1)) s)"

text \<open>
  \<open>strings.TrimSpace(s)\<close> removes the leading and the trailing white-space runes. The
  source walks over leading and trailing ASCII bytes itself and hands the rest to
  \<open>TrimFunc\<close> or \<open>TrimRightFunc\<close> with \<open>unicode.IsSpace\<close>; on ASCII bytes the two agree, so
  the result is that of \<open>TrimFunc(s, unicode.IsSpace)\<close>, which is
  \<open>TrimRightFunc(TrimLeftFunc(s, f), f)\<close>.
\<close>

definition TrimSpace :: "string \<Rightarrow> string" where
  "TrimSpace s = TrimRightFunc (TrimLeftFunc s)"

definition HasPrefix :: "string \<Rightarrow> string \<Rightarrow> bool" where
  "HasPrefix s p \<longleftrightarrow> take (length p) s = p"

definition HasSuffix :: "string \<Rightarrow> string \<Rightarrow> bool" where
  "HasSuffix s p \<longleftrightarrow> length p \<le> length s \<and> drop (length s - length p) s = p"

definition TrimSuffix :: "string \<Rightarrow> string \<Rightarrow> string" where
  "TrimSuffix s p = (if HasSuffix s p then take (length s - length p) s else s)"

text \<open>\<open>strings.TrimLeft(s, cutset)\<close>: the leading bytes that occur in the cutset are removed.\<close>

definition TrimLeft :: "string \<Rightarrow> string \<Rightarrow> string" where
  "TrimLeft s cutset = dropWhile (\<lambda>c. c \<in> set cutset) s"

text \<open>\<open>strings.Contains(s, substr)\<close>: \<open>substr\<close> starts at some position of \<open>s\<close>.\<close>

fun Contains :: "string \<Rightarrow> string \<Rightarrow> bool" where
  "Contains [] sub = (sub = [])"
| "Contains (c # cs) sub = (HasPrefix (c # cs) sub \<or> Contains cs sub)"

text \<open>
  \<open>strings.LastIndex(s, sep)\<close> and \<open>strings.Split(s, sep)\<close> for a separator of one byte,
  which is what every call in the source passes (\<open>"@"\<close>, \<open>"/"\<close>, \<open>"\n"\<close>). \<open>LastIndex\<close>
  returns \<open>-1\<close> when the byte does not occur.
\<close>

fun LastIndex :: "string \<Rightarrow> char \<Rightarrow> int" where
  "LastIndex [] sep = - 1"
| "LastIndex (c # cs) sep =
     (let r = LastIndex cs sep
      in if r \<noteq> - 1 then r + 1 else if c = sep then 0 else - 1)"

fun Split :: "string \<Rightarrow> char \<Rightarrow> string list" where
  "Split [] sep = [[]]"
| "Split (c # cs) sep =
     (if c = sep then [] # Split cs sep
      else (case Split cs sep of
              [] \<Rightarrow> [[c]]
            | l # ls \<Rightarrow> (c # l) # ls))"

fun Join :: "string list \<Rightarrow> string \<Rightarrow> string" where
  "Join [] sep = []"
| "Join [l] sep = l"
| "Join (l # l' # ls) sep = l @ sep @ Join (l' # ls) sep"

text \<open>
  \<open>strings.Fields(s)\<close>: the maximal runs of runes that are not white space, as
  \<open>FieldsFunc(s, unicode.IsSpace)\<close> computes them (the source has a second loop for a
  string of ASCII bytes only, with the same result). \<open>cur\<close> holds the bytes of the field
  being read.
\<close>

function Fields_from :: "string \<Rightarrow> string \<Rightarrow> string list" where
  "Fields_from cur [] = (if cur = [] then [] else [cur])"
| "Fields_from cur (c # cs) =
     (let (r, size) = DecodeRuneInString (c # cs)
      in if IsSpace r
         then (if cur = [] then Fields_from [] (drop size (c # cs))
               else cur # Fields_from [] (drop size (c # cs)))
         else Fields_from (cur @ take size (c # cs)) (drop size (c # cs)))"
  by pat_completeness auto

definition Fields :: "string \<Rightarrow> string list" where
  "Fields s = Fields_from [] s"

section \<open>Go errors\<close>

text \<open>
  An error value is its message and, for an error built with the \<open>%w\<close> verb of
  \<open>fmt.Errorf\<close>, the error it wraps.
\<close>

datatype go_error = ErrorString string | WrapError string go_error

fun Error :: "go_error \<Rightarrow> string" where
  "Error (ErrorString m) = m"
| "Error (WrapError m e) = m"

fun Unwrap :: "go_error \<Rightarrow> go_error option" where
  "Unwrap (ErrorString m) = None"
| "Unwrap (WrapError m e) = Some e"

text \<open>\<open>fmt.Errorf("%s: %w", msg, err)\<close>.\<close>

definition Errorf_wrap :: "string \<Rightarrow> go_error \<Rightarrow> go_error" where
  "Errorf_wrap msg err = WrapError (msg @ '': '' @ Error err) err"

section \<open>Triage of the remote's stderr (\<open>dbfactory/ssh.go\<close>)\<close>

definition newline :: char where
  "newline = CHR 0x0A"

text \<open>
  The loop of \<open>filterSSHNoise\<close>: \<open>lines\<close> is the slice built so far, the second argument
  the lines still to visit.
\<close>

fun filterSSHNoise_loop :: "string list \<Rightarrow> string list \<Rightarrow> string list" where
  "filterSSHNoise_loop lines [] = lines"
| "filterSSHNoise_loop lines (line # rest) =
     (let trimmed = TrimSpace line
      in if trimmed = [] then filterSSHNoise_loop lines rest
         else if HasPrefix trimmed ''Warning: Permanently added''
              then filterSSHNoise_loop lines rest
         else filterSSHNoise_loop (lines @ [trimmed]) rest)"

definition filterSSHNoise :: "string \<Rightarrow> string" where
  "filterSSHNoise s = Join (filterSSHNoise_loop [] (Split s newline)) [newline]"

text \<open>
  \<open>sshRemoteError\<close> waits for \<open>stderrDone\<close> and then reads the buffer; \<open>stderr\<close> is the
  content of the buffer at that moment.
\<close>

definition sshRemoteError :: "string \<Rightarrow> string \<Rightarrow> string \<Rightarrow> go_error \<Rightarrow> go_error" where
  "sshRemoteError stderr path msg err =
     (let errMsg = filterSSHNoise stderr
      in if errMsg \<noteq> []
         then (if Contains errMsg ''no such file or directory''
                  \<or> Contains errMsg ''failed to load database''
               then ErrorString (''repository not found at '' @ path)
               else ErrorString (msg @ '': remote: '' @ errMsg))
         else Errorf_wrap msg err)"

text \<open>The lines that \<open>filterSSHNoise\<close> keeps, after trimming.\<close>

definition substantive :: "string \<Rightarrow> bool" where
  "substantive t \<longleftrightarrow> t \<noteq> [] \<and> \<not> HasPrefix t ''Warning: Permanently added''"

section \<open>URLs (\<open>net/url\<close>)\<close>

record Userinfo =
  username :: string
  password :: string
  passwordSet :: bool

definition Username :: "Userinfo \<Rightarrow> string" where
  "Username u = username u"

text \<open>The fields of \<open>url.URL\<close> that \<open>CreateDB\<close> reads; \<open>User\<close> is a pointer and may be nil.\<close>

record URL =
  User :: "Userinfo option"
  Host :: string
  Path :: string

definition isDigit :: "char \<Rightarrow> bool" where
  "isDigit c \<longleftrightarrow> 48 \<le> (of_char c :: nat) \<and> (of_char c :: nat) \<le> 57"

definition validOptionalPort :: "string \<Rightarrow> bool" where
  "validOptionalPort port \<longleftrightarrow>
     (case port of
        [] \<Rightarrow> True
      | c # ds \<Rightarrow> c = CHR '':'' \<and> list_all isDigit ds)"

definition splitHostPort :: "string \<Rightarrow> string \<times> string" where
  "splitHostPort hostPort =
     (let colon = LastIndex hostPort (CHR '':'');
          (host, port) =
            (if colon \<noteq> - 1 \<and> validOptionalPort (drop (nat colon) hostPort)
             then (take (nat colon) hostPort, drop (nat (colon + 1)) hostPort)
             else (hostPort, []));
          host' =
            (if HasPrefix host ''['' \<and> HasSuffix host '']''
             then take (length host - 2) (drop 1 host)
             else host)
      in (host', port))"

definition Hostname :: "URL \<Rightarrow> string" where
  "Hostname u = fst (splitHostPort (Host u))"

definition Port :: "URL \<Rightarrow> string" where
  "Port u = snd (splitHostPort (Host u))"

section \<open>The client factory (\<open>dbfactory/ssh.go\<close>)\<close>

subsection \<open>The subprocess command\<close>

datatype Process = Running

text \<open>
  \<open>exec.Cmd\<close>: \<open>Args\<close> holds the command name followed by its arguments, as
  \<open>exec.Command\<close> stores them; \<open>Process\<close> is nil until the command is started. The
  fields \<open>Path\<close> and \<open>Err\<close>, which \<open>exec.Command\<close> fills by looking the name up in the
  directories of \<open>PATH\<close>, depend on the file system and are left out: nothing below
  speaks of them.
\<close>

record Cmd =
  Args :: "string list"
  Process :: "Process option"

definition exec_Command :: "string \<Rightarrow> string list \<Rightarrow> Cmd" where
  "exec_Command name arg = \<lparr>Args = name # arg, Process = None\<rparr>"

text \<open>
  \<open>os.Getenv\<close> is the first argument of \<open>buildTransferCommand\<close>: a function from the
  name of a variable to its value, the empty string for a variable that is not set.
\<close>

definition buildTransferCommand ::
    "(string \<Rightarrow> string) \<Rightarrow> string \<Rightarrow> string \<Rightarrow> string \<Rightarrow> string \<Rightarrow> go_error + Cmd" where
  "buildTransferCommand getenv host port path user =
     (let sshCommand = (if getenv ''DOLT_SSH'' = [] then ''ssh'' else getenv ''DOLT_SSH'');
          remoteDolt =
            (if getenv ''DOLT_SSH_EXEC_PATH'' = [] then ''dolt''
             else getenv ''DOLT_SSH_EXEC_PATH'');
          sshTarget = (if user \<noteq> [] then user @ ''@'' @ host else host);
          remoteCmd = remoteDolt @ '' --data-dir '' @ path @ '' transfer'';
          sshArgs = Fields sshCommand
      in if length sshArgs = 0 then Inl (ErrorString ''invalid DOLT_SSH command: empty'')
         else
           (let args0 = tl sshArgs @ [''-p'', port, sshTarget, remoteCmd];
                args1 = (if port = [] then tl sshArgs @ [sshTarget, remoteCmd] else args0)
            in Inr (exec_Command (hd sshArgs) args1)))"

subsection \<open>Parsing the URL\<close>

text \<open>
  The first lines of \<open>CreateDB\<close>, up to the call of \<open>buildTransferCommand\<close>: the result
  is the argument tuple of that call, in its order \<open>(host, port, path, user)\<close>.
\<close>

definition CreateDB_parse :: "URL \<Rightarrow> string \<times> string \<times> string \<times> string" where
  "CreateDB_parse urlObj =
     (let host = Hostname urlObj;
          port = Port urlObj;
          path = TrimSuffix (Path urlObj) ''/.dolt'';
          user = (case User urlObj of None \<Rightarrow> [] | Some ui \<Rightarrow> Username ui);
          atIdx = LastIndex host (CHR ''@'')
      in if atIdx \<noteq> - 1
         then (drop (nat (atIdx + 1)) host, port, path, take (nat atIdx) host)
         else (host, port, path, user))"

subsection \<open>The connection and its teardown\<close>

datatype Session = Session
datatype ClientConn = ClientConn
datatype WriteCloser = WriteCloser
datatype CancelCauseFunc = CancelCauseFunc

record sshConnection =
  cmd :: "Cmd option"
  session :: "Session option"
  grpcConn :: "ClientConn option"
  stdin :: "WriteCloser option"
  procCancel :: "CancelCauseFunc option"

text \<open>
  What the factory and the teardown do to the world, in the order they do it.
  \<open>ProcCancel\<close> carries the text of the cause.
\<close>

datatype event =
    CmdStart Cmd
  | RegisterCustomTransport string
  | UnregisterCustomTransport string
  | ProcCancel string
  | SessionClose
  | GrpcConnClose
  | StdinClose
  | ProcessKill
  | CmdWait
  | DoltChunkStoreClose

definition sshConnection_Close :: "sshConnection \<Rightarrow> event list \<times> go_error option" where
  "sshConnection_Close c =
     ([UnregisterCustomTransport ''transfer.local'']
      @ (if procCancel c \<noteq> None then [ProcCancel ''connection closed''] else [])
      @ (if session c \<noteq> None then [SessionClose] else [])
      @ (if grpcConn c \<noteq> None then [GrpcConnClose] else [])
      @ (if stdin c \<noteq> None then [StdinClose] else [])
      @ (case cmd c of
           None \<Rightarrow> []
         | Some k \<Rightarrow> (if Process k \<noteq> None then [ProcessKill, CmdWait] else [])),
      None)"

text \<open>
  The embedded \<open>DoltChunkStore\<close> is kept as the result of its own \<open>Close\<close>, the only
  operation of it that appears here.
\<close>

record DoltChunkStore =
  Close_result :: "go_error option"

record sshChunkStore =
  store :: DoltChunkStore
  conn :: sshConnection

definition sshChunkStore_Close :: "sshChunkStore \<Rightarrow> event list \<times> go_error option" where
  "sshChunkStore_Close s =
     (let err = Close_result (store s);
          (evs, connErr) = sshConnection_Close (conn s)
      in (DoltChunkStoreClose # evs, if err \<noteq> None then err else connErr))"

subsection \<open>\<open>PrepareDB\<close> and \<open>CreateDB\<close>\<close>

definition PrepareDB ::
    "'ctx \<Rightarrow> 'nbf \<Rightarrow> URL \<Rightarrow> (string \<rightharpoonup> 'v) \<Rightarrow> event list \<times> go_error option" where
  "PrepareDB ctx nbf urlObj params =
     ([], Some (ErrorString ''ssh scheme does not support PrepareDB''))"

text \<open>
  The answers of the outside world to \<open>CreateDB\<close>: for each step that can fail, the
  error it returns (None for success), and the text the subprocess has written to
  stderr by the time \<open>stderrDone\<close> is closed.
\<close>

record outcomes =
  StdinPipe_err :: "go_error option"
  StdoutPipe_err :: "go_error option"
  StderrPipe_err :: "go_error option"
  Start_err :: "go_error option"
  smux_Client_err :: "go_error option"
  grpc_NewClient_err :: "go_error option"
  NewDoltChunkStoreFromPath_result :: "go_error + DoltChunkStore"
  stderrBuf :: string

text \<open>
  \<open>CreateDB\<close> returns the events in order and either the error or the wrapped chunk
  store. The session monitor, which cancels the context with cause
  \<open>remote process exited\<close> from its own goroutine, is not part of this sequential model.
\<close>

definition CreateDB ::
    "(string \<Rightarrow> string) \<Rightarrow> outcomes \<Rightarrow> URL \<Rightarrow> event list \<times> (go_error + sshChunkStore)" where
  "CreateDB getenv oc urlObj =
     (case CreateDB_parse urlObj of (host, port, path, user) \<Rightarrow>
      (case buildTransferCommand getenv host port path user of
         Inl err \<Rightarrow> ([], Inl err)
       | Inr c0 \<Rightarrow>
      (case StdinPipe_err oc of
         Some err \<Rightarrow> ([], Inl (Errorf_wrap ''failed to create stdin pipe'' err))
       | None \<Rightarrow>
      (case StdoutPipe_err oc of
         Some err \<Rightarrow> ([], Inl (Errorf_wrap ''failed to create stdout pipe'' err))
       | None \<Rightarrow>
      (case StderrPipe_err oc of
         Some err \<Rightarrow> ([], Inl (Errorf_wrap ''failed to create stderr pipe'' err))
       | None \<Rightarrow>
      (case Start_err oc of
         Some err \<Rightarrow> ([], Inl (Errorf_wrap ''failed to start transfer subprocess'' err))
       | None \<Rightarrow>
      (let c = c0\<lparr>Process := Some Running\<rparr> in
      (case smux_Client_err oc of
         Some err \<Rightarrow>
           ([CmdStart c, ProcessKill, ProcCancel (Error err)],
            Inl (sshRemoteError (stderrBuf oc) path
                   ''failed to create SMUX client session'' err))
       | None \<Rightarrow>
      (case grpc_NewClient_err oc of
         Some err \<Rightarrow>
           ([CmdStart c, RegisterCustomTransport ''transfer.local'',
             SessionClose, ProcessKill, ProcCancel (Error err)],
            Inl (sshRemoteError (stderrBuf oc) path ''failed to create gRPC client'' err))
       | None \<Rightarrow>
      (case NewDoltChunkStoreFromPath_result oc of
         Inl err \<Rightarrow>
           ([CmdStart c, RegisterCustomTransport ''transfer.local'',
             ProcCancel (Error err), UnregisterCustomTransport ''transfer.local'',
             GrpcConnClose, SessionClose, StdinClose, ProcessKill],
            Inl (sshRemoteError (stderrBuf oc) path ''failed to create chunk store'' err))
       | Inr cs \<Rightarrow>
           ([CmdStart c, RegisterCustomTransport ''transfer.local''],
            Inr \<lparr>store = cs,
                 conn = \<lparr>cmd = Some c, session = Some Session,
                         grpcConn = Some ClientConn, stdin = Some WriteCloser,
                         procCancel = Some CancelCauseFunc\<rparr>\<rparr>)))))))))))"

section \<open>Parsing numbers and base64 (\<open>strconv\<close>, \<open>encoding/base64\<close>)\<close>

definition digits_value :: "string \<Rightarrow> nat" where
  "digits_value ds = foldl (\<lambda>acc c. 10 * acc + (of_char c - 48)) 0 ds"

text \<open>\<open>strconv.ParseUint(s, 10, 64)\<close>: decimal digits only, no sign, below \<open>2^64\<close>.\<close>

definition ParseUint :: "string \<Rightarrow> nat option" where
  "ParseUint s =
     (if s = [] \<or> \<not> list_all isDigit s then None
      else if digits_value s < 2 ^ 64 then Some (digits_value s) else None)"

text \<open>
  \<open>strconv.Atoi(s)\<close> with a 64-bit \<open>int\<close>: an optional sign, then decimal digits, the
  value between \<open>-2^63\<close> and \<open>2^63 - 1\<close>.
\<close>

definition Atoi :: "string \<Rightarrow> int option" where
  "Atoi s =
     (let (neg, ds) =
            (case s of
               [] \<Rightarrow> (False, [])
             | c # cs \<Rightarrow>
                 (if c = CHR ''+'' then (False, cs)
                  else if c = CHR ''-'' then (True, cs)
                  else (False, s)))
      in if ds = [] \<or> \<not> list_all isDigit ds then None
         else if \<not> neg \<and> digits_value ds \<ge> 2 ^ 63 then None
         else if neg \<and> digits_value ds > 2 ^ 63 then None
         else Some (if neg then - int (digits_value ds) else int (digits_value ds)))"

text \<open>
  \<open>base64.RawURLEncoding.DecodeString\<close>: the URL-safe alphabet without padding. The
  decoder of the standard library skips carriage returns and line feeds, refuses every
  other byte outside the alphabet (the padding byte included) and a final group of a
  single character, and ignores the unused low bits of a final group.
\<close>

definition base64url_digit :: "char \<Rightarrow> nat option" where
  "base64url_digit c =
     (let n = (of_char c :: nat)
      in if 65 \<le> n \<and> n \<le> 90 then Some (n - 65)
         else if 97 \<le> n \<and> n \<le> 122 then Some (n - 71)
         else if 48 \<le> n \<and> n \<le> 57 then Some (n + 4)
         else if c = CHR ''-'' then Some 62
         else if c = CHR ''_'' then Some 63
         else None)"

fun decode_sextets :: "nat list \<Rightarrow> string option" where
  "decode_sextets [] = Some []"
| "decode_sextets [a] = None"
| "decode_sextets [a, b] = Some [char_of (a * 4 + b div 16)]"
| "decode_sextets [a, b, c] =
     Some [char_of (a * 4 + b div 16), char_of ((b mod 16) * 16 + c div 4)]"
| "decode_sextets (a # b # c # d # rest) =
     (case decode_sextets rest of
        None \<Rightarrow> None
      | Some bs \<Rightarrow>
          Some (char_of (a * 4 + b div 16) # char_of ((b mod 16) * 16 + c div 4)
                # char_of ((c mod 4) * 64 + d) # bs))"

definition RawURLEncoding_DecodeString :: "string \<Rightarrow> string option" where
  "RawURLEncoding_DecodeString s =
     (let cs = filter (\<lambda>c. c \<noteq> CHR 0x0A \<and> c \<noteq> CHR 0x0D) s
      in if list_all (\<lambda>c. base64url_digit c \<noteq> None) cs
         then decode_sextets (map (\<lambda>c. the (base64url_digit c)) cs)
         else None)"

section \<open>The server command (\<open>TransferCmd\<close>, package \<open>commands\<close>)\<close>

subsection \<open>HTTP requests and responses\<close>

definition MethodGet :: string where "MethodGet = ''GET''"
definition MethodPost :: string where "MethodPost = ''POST''"
definition MethodPut :: string where "MethodPut = ''PUT''"

definition StatusOK :: nat where "StatusOK = 200"
definition StatusBadRequest :: nat where "StatusBadRequest = 400"
definition StatusNotFound :: nat where "StatusNotFound = 404"
definition StatusMethodNotAllowed :: nat where "StatusMethodNotAllowed = 405"
definition StatusInternalServerError :: nat where "StatusInternalServerError = 500"

text \<open>
  A request as the handler reads it: the method, \<open>r.URL.Path\<close>, the parsed query
  (\<open>r.URL.Query()\<close>, a \<open>url.Values\<close>) and the body.
\<close>

record Request =
  Method :: string
  URL_Path :: string
  Query :: "string \<rightharpoonup> string list"
  Body :: string

text \<open>\<open>url.Values.Get\<close>: the first value of the key, the empty string when there is none.\<close>

definition Get :: "(string \<rightharpoonup> string list) \<Rightarrow> string \<Rightarrow> string" where
  "Get q key = (case q key of None \<Rightarrow> [] | Some [] \<Rightarrow> [] | Some (v # vs) \<Rightarrow> v)"

text \<open>
  The response is the call the handler makes on the \<open>http.ResponseWriter\<close>:
  \<open>http.Error(w, text, code)\<close>, which sends the status \<open>code\<close> and the text as the body;
  \<open>http.ServeContent\<close> on the content of a file, after the content type is set to
  \<open>application/octet-stream\<close> (status and ranges are then decided by \<open>net/http\<close>); or
  \<open>w.WriteHeader(code)\<close> alone.
\<close>

datatype response =
    http_Error string nat
  | ServeContent string
  | WriteHeader nat

fun status :: "response \<Rightarrow> nat option" where
  "status (http_Error text code) = Some code"
| "status (ServeContent content) = None"
| "status (WriteHeader code) = Some code"

subsection \<open>The chunk store, the cache and the file system\<close>

text \<open>
  The arguments of one call of \<open>WriteTableFile\<close>; \<open>body\<close> and \<open>contentLength\<close> are what
  the \<open>getRd\<close> callback passed by the handler returns.
\<close>

record WriteTableFile_args =
  fileId :: string
  splitOffset :: nat
  numChunks :: int
  contentHash :: string
  body :: string
  contentLength :: nat

record RemoteSrvStore =
  WriteTableFile :: "WriteTableFile_args \<Rightarrow> go_error option"

record File =
  content :: string
  is_ReadSeeker :: bool

text \<open>
  \<open>dbCache\<close> is the \<open>Get\<close> method of a \<open>remotesrv.DBCache\<close>, \<open>fs\<close> the \<open>OpenForRead\<close>
  method of a \<open>filesys.Filesys\<close>.
\<close>

record transferFileHandler =
  dbCache :: "string \<Rightarrow> string \<Rightarrow> go_error + RemoteSrvStore"
  fs :: "string \<Rightarrow> go_error + File"

definition singletonDBCache_Get ::
    "RemoteSrvStore \<Rightarrow> string \<Rightarrow> string \<Rightarrow> go_error + RemoteSrvStore" where
  "singletonDBCache_Get cs path nbf = Inr cs"

definition newTransferFileHandler ::
    "(string \<Rightarrow> string \<Rightarrow> go_error + RemoteSrvStore) \<Rightarrow> (string \<Rightarrow> go_error + File)
      \<Rightarrow> transferFileHandler" where
  "newTransferFileHandler dbc filesys = \<lparr>dbCache = dbc, fs = filesys\<rparr>"

text \<open>What a handler does besides answering, in order.\<close>

datatype srv_event =
    OpenForRead string
  | DBCacheGet string
  | WriteTableFileCall WriteTableFile_args
  | LogError string

subsection \<open>The file-transfer handler\<close>

definition handleGet :: "transferFileHandler \<Rightarrow> Request \<Rightarrow> string \<Rightarrow> srv_event list \<times> response" where
  "handleGet fh r path =
     (case fs fh path of
        Inl err \<Rightarrow> ([OpenForRead path], http_Error ''Not Found'' StatusNotFound)
      | Inr reader \<Rightarrow>
          (if \<not> is_ReadSeeker reader
           then ([OpenForRead path],
                 http_Error ''Internal Server Error'' StatusInternalServerError)
           else ([OpenForRead path], ServeContent (content reader))))"

definition handleUpload :: "transferFileHandler \<Rightarrow> Request \<Rightarrow> string \<Rightarrow> srv_event list \<times> response" where
  "handleUpload fh r path =
     (let i = LastIndex path (CHR ''/'') in
      if i < 0 then ([], http_Error ''Bad Request'' StatusBadRequest)
      else
     (let dbPath = take (nat i) path;
          filename = drop (nat (i + 1)) path;
          q = Query r;
          numChunksStr = Get q ''num_chunks'' in
      if numChunksStr = []
      then ([], http_Error ''Bad Request: num_chunks required'' StatusBadRequest)
      else
     (case Atoi numChunksStr of
        None \<Rightarrow> ([], http_Error ''Bad Request: invalid num_chunks'' StatusBadRequest)
      | Some nc \<Rightarrow>
     (let contentLengthStr = Get q ''content_length'' in
      if contentLengthStr = []
      then ([], http_Error ''Bad Request: content_length required'' StatusBadRequest)
      else
     (case ParseUint contentLengthStr of
        None \<Rightarrow> ([], http_Error ''Bad Request: invalid content_length'' StatusBadRequest)
      | Some cl \<Rightarrow>
     (let contentHashStr = Get q ''content_hash'' in
      if contentHashStr = []
      then ([], http_Error ''Bad Request: content_hash required'' StatusBadRequest)
      else
     (case RawURLEncoding_DecodeString contentHashStr of
        None \<Rightarrow> ([], http_Error ''Bad Request: invalid content_hash'' StatusBadRequest)
      | Some ch \<Rightarrow>
     (let splitOffsetStr = Get q ''split_offset'' in
      if splitOffsetStr \<noteq> [] \<and> ParseUint splitOffsetStr = None
      then ([], http_Error ''Bad Request: invalid split_offset'' StatusBadRequest)
      else
     (let so = (if splitOffsetStr \<noteq> [] then the (ParseUint splitOffsetStr) else 0) in
     (case dbCache fh dbPath [] of
        Inl err \<Rightarrow>
          ([DBCacheGet dbPath],
           http_Error ''Internal Server Error'' StatusInternalServerError)
      | Inr cs \<Rightarrow>
     (let call = \<lparr>fileId = filename, splitOffset = so, numChunks = nc,
                  contentHash = ch, body = Body r, contentLength = cl\<rparr> in
     (case WriteTableFile cs call of
        Some err \<Rightarrow>
          ([DBCacheGet dbPath, WriteTableFileCall call,
            LogError ''failed to write table file''],
           http_Error (Error err) StatusInternalServerError)
      | None \<Rightarrow>
          ([DBCacheGet dbPath, WriteTableFileCall call],
           WriteHeader StatusOK)))))))))))))"

definition ServeHTTP :: "transferFileHandler \<Rightarrow> Request \<Rightarrow> srv_event list \<times> response" where
  "ServeHTTP fh r =
     (let path = TrimLeft (URL_Path r) ''/'' in
      if Method r = MethodGet then handleGet fh r path
      else if Method r = MethodPost \<or> Method r = MethodPut then handleUpload fh r path
      else ([], http_Error ''Method Not Allowed'' StatusMethodNotAllowed))"

subsection \<open>\<open>TransferCmd.Exec\<close>\<close>

text \<open>
  \<open>errhand.BuildDError(text).AddCause(err).Build()\<close>: the error shown to the user,
  with its optional cause.
\<close>

record VerboseError =
  display :: string
  cause :: "go_error option"

definition BuildDError :: "string \<Rightarrow> go_error option \<Rightarrow> VerboseError" where
  "BuildDError text c = \<lparr>display = text, cause = c\<rparr>"

text \<open>What \<open>Exec\<close> writes to stderr: a diagnostic of a verbose error, or a formatted line.\<close>

datatype stderr_write = Diagnostic VerboseError | Fprintf string

text \<open>
  Modelled from the spec: \<open>HandleVErrAndExitCode\<close> is defined in another file of package
  \<open>commands\<close>. By sections 4.5 and 6 of the specification, a failure handed to it is
  printed to stderr as a diagnostic and the command exits with code 1.
\<close>

definition HandleVErrAndExitCode :: "VerboseError \<Rightarrow> stderr_write list \<times> int" where
  "HandleVErrAndExitCode verr = ([Diagnostic verr], 1)"

text \<open>
  The setting of one run of \<open>Exec\<close>.
  \<^item> \<open>args_ok\<close>: \<open>cli.ParseArgsOrDie\<close> returns. The function is defined in package
    \<open>cli\<close>, outside the source at hand; on a command line that does not parse it ends
    the process, so that \<open>Exec\<close> does not return. Whether it returns is an input of
    the model.
  \<^item> \<open>DoltDB_nil\<close>, \<open>DBLoadError\<close>: whether \<open>dEnv.DoltDB(ctx)\<close> is nil, and the load error
    of the environment.
  \<^item> \<open>smux_Server_err\<close>: the error of \<open>smux.Server\<close>.
  \<^item> \<open>is_RemoteSrvStore\<close>: the chunk store of the database is a
    \<open>remotesrv.RemoteSrvStore\<close>.
  \<^item> \<open>grpc_Serve\<close>, \<open>http_Serve\<close>: the error with which \<open>grpcServer.Serve\<close> and
    \<open>httpServer.Serve\<close> have returned by the time the final \<open>select\<close> chooses; None for
    a server that is still serving, or has returned nil.
  \<^item> \<open>session_closed\<close>, \<open>ctx_done\<close>: at that time the channel \<open>session.CloseChan()\<close> is
    closed, the channel \<open>ctx.Done()\<close> is closed.
\<close>

record exec_env =
  args_ok :: bool
  DoltDB_nil :: bool
  DBLoadError :: "go_error option"
  smux_Server_err :: "go_error option"
  is_RemoteSrvStore :: bool
  grpc_Serve :: "go_error option"
  http_Serve :: "go_error option"
  session_closed :: bool
  ctx_done :: bool

definition ErrServerClosed :: go_error where
  "ErrServerClosed = ErrorString ''http: Server closed''"

text \<open>
  The two goroutines that run the servers: given the error that \<open>Serve\<close> returns (None
  for nil), what the goroutine sends on \<open>errCh\<close>, if anything.
\<close>

definition grpc_goroutine :: "go_error option \<Rightarrow> go_error option" where
  "grpc_goroutine r =
     (case r of None \<Rightarrow> None | Some err \<Rightarrow> Some (Errorf_wrap ''gRPC server error'' err))"

definition http_goroutine :: "go_error option \<Rightarrow> go_error option" where
  "http_goroutine r =
     (case r of
        None \<Rightarrow> None
      | Some err \<Rightarrow>
          (if err \<noteq> ErrServerClosed then Some (Errorf_wrap ''HTTP server error'' err)
           else None))"

text \<open>
  The errors that the two goroutines have sent on \<open>errCh\<close>. The channel has room for
  both, so that no send blocks; which of two errors was sent first, and is received
  first, is a matter of scheduling.
\<close>

definition errCh :: "exec_env \<Rightarrow> go_error list" where
  "errCh dEnv =
     (case grpc_goroutine (grpc_Serve dEnv) of None \<Rightarrow> [] | Some e \<Rightarrow> [e])
     @ (case http_goroutine (http_Serve dEnv) of None \<Rightarrow> [] | Some e \<Rightarrow> [e])"

text \<open>
  The final \<open>select\<close> of \<open>Exec\<close>. It waits until one of its three cases can proceed;
  when several can, the Go runtime picks one of them at random. The function returns
  the results of the cases that can proceed, each what \<open>Exec\<close> writes to stderr and the
  exit code: one result for each error waiting on \<open>errCh\<close>, one for a closed session,
  one for a cancelled context. The list is empty as long as \<open>select\<close> blocks.
\<close>

definition select_cases :: "exec_env \<Rightarrow> (stderr_write list \<times> int) list" where
  "select_cases dEnv =
     map (\<lambda>err. ([Fprintf (Error err @ [newline])], 1)) (errCh dEnv)
     @ (if session_closed dEnv then [([], 0)] else [])
     @ (if ctx_done dEnv then [([], 0)] else [])"

text \<open>
  \<open>Exec\<close> returns the list of the results that the call can have in the given setting:
  no result when the process ends in \<open>ParseArgsOrDie\<close> or the \<open>select\<close> blocks for ever,
  one result when \<open>Exec\<close> returns before it starts the servers, and the results of the
  \<open>select\<close> otherwise. The steps between the checks (\<open>signal.Ignore\<close>, the configuration
  of the mux, the construction of the two servers and of the listener) write nothing
  to stderr and do not return; they are left out.
\<close>

definition Exec :: "exec_env \<Rightarrow> (stderr_write list \<times> int) list" where
  "Exec dEnv =
     (if \<not> args_ok dEnv then []
      else if DoltDB_nil dEnv \<or> DBLoadError dEnv \<noteq> None
      then (if DBLoadError dEnv \<noteq> None
            then [HandleVErrAndExitCode
                    (BuildDError ''failed to load database'' (DBLoadError dEnv))]
            else [HandleVErrAndExitCode (BuildDError ''failed to load database'' None)])
      else
     (case smux_Server_err dEnv of
        Some err \<Rightarrow>
          [HandleVErrAndExitCode (BuildDError ''failed to create SMUX session'' (Some err))]
      | None \<Rightarrow>
     (if \<not> is_RemoteSrvStore dEnv
      then [HandleVErrAndExitCode
              (BuildDError ''chunk store does not implement RemoteSrvStore'' None)]
      else select_cases dEnv)))"

section \<open>The claims' vocabulary\<close>

text \<open>
  The definitions of this section do not come from the source: they say in the words of
  the specification what the theorems below compare the code with.
\<close>

text \<open>
  The filter as the specification words it: of the lines of the text, trimmed, those are
  kept that are not blank and do not begin with \<open>Warning: Permanently added\<close>
  (\<open>substantive\<close>, above); they are joined by newlines.
\<close>

definition filterSSHNoise_spec :: "string \<Rightarrow> string" where
  "filterSSHNoise_spec s =
     Join (filter substantive (map TrimSpace (Split s newline))) [newline]"

text \<open>A list contains the adjacent pair \<open>a\<close>, \<open>b\<close>.\<close>

fun adjacent :: "'a \<Rightarrow> 'a \<Rightarrow> 'a list \<Rightarrow> bool" where
  "adjacent a b (x # y # zs) = (x = a \<and> y = b \<or> adjacent a b (y # zs))"
| "adjacent a b zs = False"

text \<open>The teardown steps of the connection, in the order section 4.7 lists them.\<close>

definition teardown_order :: "event list" where
  "teardown_order =
     [UnregisterCustomTransport ''transfer.local'', ProcCancel ''connection closed'',
      SessionClose, GrpcConnClose, StdinClose, ProcessKill, CmdWait]"

text \<open>The calls of \<open>WriteTableFile\<close> among the events of a request, in order.\<close>

fun write_calls :: "srv_event list \<Rightarrow> WriteTableFile_args list" where
  "write_calls [] = []"
| "write_calls (WriteTableFileCall a # es) = a # write_calls es"
| "write_calls (e # es) = write_calls es"

text \<open>
  The upload parameters are in order: \<open>num_chunks\<close>, \<open>content_length\<close> and
  \<open>content_hash\<close> are present and parse, \<open>split_offset\<close> parses when present. A parameter
  counts as present when \<open>Get\<close> returns a non-empty value for it.
\<close>

definition params_ok :: "Request \<Rightarrow> bool" where
  "params_ok r \<longleftrightarrow>
     Get (Query r) ''num_chunks'' \<noteq> []
     \<and> Atoi (Get (Query r) ''num_chunks'') \<noteq> None
     \<and> Get (Query r) ''content_length'' \<noteq> []
     \<and> ParseUint (Get (Query r) ''content_length'') \<noteq> None
     \<and> Get (Query r) ''content_hash'' \<noteq> []
     \<and> RawURLEncoding_DecodeString (Get (Query r) ''content_hash'') \<noteq> None
     \<and> (Get (Query r) ''split_offset'' = []
        \<or> ParseUint (Get (Query r) ''split_offset'') \<noteq> None)"

text \<open>The reason of a rejection names a parameter that is indeed missing or malformed.\<close>

definition names_offending :: "Request \<Rightarrow> string \<Rightarrow> bool" where
  "names_offending r reason \<longleftrightarrow>
     reason = ''Bad Request: num_chunks required'' \<and> Get (Query r) ''num_chunks'' = []
     \<or> reason = ''Bad Request: invalid num_chunks''
         \<and> Atoi (Get (Query r) ''num_chunks'') = None
     \<or> reason = ''Bad Request: content_length required''
         \<and> Get (Query r) ''content_length'' = []
     \<or> reason = ''Bad Request: invalid content_length''
         \<and> ParseUint (Get (Query r) ''content_length'') = None
     \<or> reason = ''Bad Request: content_hash required''
         \<and> Get (Query r) ''content_hash'' = []
     \<or> reason = ''Bad Request: invalid content_hash''
         \<and> RawURLEncoding_DecodeString (Get (Query r) ''content_hash'') = None
     \<or> reason = ''Bad Request: invalid split_offset''
         \<and> Get (Query r) ''split_offset'' \<noteq> []
         \<and> ParseUint (Get (Query r) ''split_offset'') = None"

text \<open>
  The call of \<open>WriteTableFile\<close> that the parameters of a request describe: the file
  name after the last slash of the path, the parsed values, the body as it came.
\<close>

definition parsed_call :: "Request \<Rightarrow> string \<Rightarrow> WriteTableFile_args" where
  "parsed_call r path =
     \<lparr>fileId = drop (nat (LastIndex path (CHR ''/'') + 1)) path,
      splitOffset = (if Get (Query r) ''split_offset'' = [] then 0
                     else the (ParseUint (Get (Query r) ''split_offset''))),
      numChunks = the (Atoi (Get (Query r) ''num_chunks'')),
      contentHash = the (RawURLEncoding_DecodeString (Get (Query r) ''content_hash'')),
      body = Body r,
      contentLength = the (ParseUint (Get (Query r) ''content_length''))\<rparr>"

section \<open>An auxiliary function\<close>

text \<open>
  For the proofs about \<open>TrimSpace\<close>: the number of leading bytes that \<open>TrimRightFunc\<close>
  keeps. It is the loop of \<open>lastIndexFunc\<close>, returning the end of the last rune that is
  not white space instead of its start.
\<close>

function trimmed_length :: "string \<Rightarrow> nat" where
  "trimmed_length [] = 0"
| "trimmed_length (c # cs) =
     (let (r, size) = DecodeLastRuneInString (c # cs)
      in if IsSpace r then trimmed_length (take (length (c # cs) - size) (c # cs))
         else length (c # cs))"
  by pat_completeness auto

section \<open>Example inputs\<close>

text \<open>
  Concrete inputs on which the theorems are exercised. The environment is the one of
  the test \<open>DOLT_SSH_EXEC_PATH overrides remote dolt path\<close> of \<open>ssh-transfer.bats\<close>, with
  an ssh command that carries one leading argument.
\<close>

definition example_env :: "string \<Rightarrow> string" where
  "example_env v =
     (if v = ''DOLT_SSH'' then ''/usr/bin/ssh -q''
      else if v = ''DOLT_SSH_EXEC_PATH'' then ''/custom/path/to/dolt''
      else [])"

definition example_url :: URL where
  "example_url = \<lparr>User = Some \<lparr>username = ''alice'', password = [], passwordSet = False\<rparr>,
                    Host = ''example.com:2222'', Path = ''/srv/repo/.dolt''\<rparr>"

definition example_outcomes :: outcomes where
  "example_outcomes =
     \<lparr>StdinPipe_err = None, StdoutPipe_err = None, StderrPipe_err = None,
      Start_err = None, smux_Client_err = None, grpc_NewClient_err = None,
      NewDoltChunkStoreFromPath_result = Inr \<lparr>Close_result = None\<rparr>,
      stderrBuf = []\<rparr>"

definition example_cmd :: Cmd where
  "example_cmd =
     \<lparr>Args = [''/usr/bin/ssh'', ''-q'', ''-p'', ''2222'', ''alice@example.com'',
              ''/custom/path/to/dolt --data-dir /srv/repo transfer''],
      Process = None\<rparr>"

definition example_store :: RemoteSrvStore where
  "example_store = \<lparr>WriteTableFile = (\<lambda>a. None)\<rparr>"

definition example_handler :: transferFileHandler where
  "example_handler =
     newTransferFileHandler (singletonDBCache_Get example_store)
       (\<lambda>p. Inl (ErrorString ''file does not exist''))"

text \<open>A handler whose cache fails, as a cache other than the singleton cache may.\<close>

definition example_failing_cache_handler :: transferFileHandler where
  "example_failing_cache_handler =
     newTransferFileHandler (\<lambda>path nbf. Inl (ErrorString ''database not found''))
       (\<lambda>p. Inl (ErrorString ''file does not exist''))"

definition example_upload :: Request where
  "example_upload =
     \<lparr>Method = ''POST'', URL_Path = ''/srv/repo/tablefile01'',
      Query = [''num_chunks'' \<mapsto> [''3''], ''content_length'' \<mapsto> [''5''],
               ''content_hash'' \<mapsto> [''aGVsbG8'']],
      Body = ''hello''\<rparr>"

definition example_bad_upload :: Request where
  "example_bad_upload =
     \<lparr>Method = ''POST'', URL_Path = ''/srv/repo/tablefile01'',
      Query = [''num_chunks'' \<mapsto> [''3''], ''content_length'' \<mapsto> [''five'']],
      Body = ''hello''\<rparr>"

definition example_delete :: Request where
  "example_delete =
     \<lparr>Method = ''DELETE'', URL_Path = ''/srv/repo/tablefile01'',
      Query = Map.empty, Body = []\<rparr>"

text \<open>
  An ssh command that ends in \<open>-p\<close>, and a request whose path has a single, leading
  slash.
\<close>

definition example_dash_p_env :: "string \<Rightarrow> string" where
  "example_dash_p_env v = (if v = ''DOLT_SSH'' then ''ssh -p'' else [])"

definition example_short_upload :: Request where
  "example_short_upload =
     \<lparr>Method = ''POST'', URL_Path = ''/tablefile01'',
      Query = [''num_chunks'' \<mapsto> [''3''], ''content_length'' \<mapsto> [''5''],
               ''content_hash'' \<mapsto> [''aGVsbG8'']],
      Body = ''hello''\<rparr>"

text \<open>
  Settings of \<open>Exec\<close>: the client has disconnected and nothing else has happened; the
  client has disconnected and the gRPC server has returned from \<open>Serve\<close> with the error
  of its listener; the gRPC server has failed while the session is open; the HTTP server
  has been shut down and the context is cancelled; the database did not load.
\<close>

definition example_exec_env :: exec_env where
  "example_exec_env =
     \<lparr>args_ok = True, DoltDB_nil = False, DBLoadError = None, smux_Server_err = None,
      is_RemoteSrvStore = True, grpc_Serve = None, http_Serve = None,
      session_closed = True, ctx_done = False\<rparr>"

definition example_disconnect_env :: exec_env where
  "example_disconnect_env =
     \<lparr>args_ok = True, DoltDB_nil = False, DBLoadError = None, smux_Server_err = None,
      is_RemoteSrvStore = True, grpc_Serve = Some (ErrorString ''EOF''), http_Serve = None,
      session_closed = True, ctx_done = False\<rparr>"

definition example_failing_env :: exec_env where
  "example_failing_env =
     \<lparr>args_ok = True, DoltDB_nil = False, DBLoadError = None, smux_Server_err = None,
      is_RemoteSrvStore = True, grpc_Serve = Some (ErrorString ''EOF''), http_Serve = None,
      session_closed = False, ctx_done = False\<rparr>"

definition example_shutdown_env :: exec_env where
  "example_shutdown_env =
     \<lparr>args_ok = True, DoltDB_nil = False, DBLoadError = None, smux_Server_err = None,
      is_RemoteSrvStore = True, grpc_Serve = None, http_Serve = Some ErrServerClosed,
      session_closed = False, ctx_done = True\<rparr>"

definition example_unloaded_env :: exec_env where
  "example_unloaded_env =
     \<lparr>args_ok = True, DoltDB_nil = True,
      DBLoadError = Some (ErrorString ''no such file or directory''),
      smux_Server_err = None, is_RemoteSrvStore = True, grpc_Serve = None,
      http_Serve = None, session_closed = False, ctx_done = False\<rparr>"

section \<open>Decoding runes and trimming white space\<close>

text \<open>
  The table \<open>first\<close> and the decoder, by the length of the encoding.
\<close>

lemma first_Some:
  "first s0 = Some (sz, lo, hi) \<Longrightarrow>
     (sz = 2 \<or> sz = 3 \<or> sz = 4) \<and> 0x80 \<le> lo \<and> hi \<le> 0xBF \<and> 0x80 \<le> s0"
  by (simp add: first_def split: if_splits)

lemma first_accept_cont:
  "first s0 = Some (sz, lo, hi) \<Longrightarrow> \<not> is_cont s1 \<Longrightarrow> s1 < lo \<or> hi < s1"
  using first_Some [of s0 sz lo hi] by (auto simp: is_cont_def)

lemma first_None_cont: "is_cont s0 \<Longrightarrow> first s0 = None"
  by (simp add: first_def is_cont_def)

lemma DecodeRune_Nil: "DecodeRuneInString [] = (RuneError, 0)"
  by (simp add: DecodeRuneInString_def)

lemma DecodeRune_ascii:
  "(of_char c0 :: nat) < 0x80 \<Longrightarrow> DecodeRuneInString (c0 # rest) = (of_char c0, 1)"
  by (simp add: DecodeRuneInString_def)

lemma DecodeRune_invalid:
  "\<not> (of_char c0 :: nat) < 0x80 \<Longrightarrow> first (of_char c0) = None \<Longrightarrow>
     DecodeRuneInString (c0 # rest) = (RuneError, 1)"
  by (simp add: DecodeRuneInString_def)

lemma DecodeRune_sz2:
  assumes "\<not> (of_char c0 :: nat) < 0x80" and "first (of_char c0) = Some (2, lo, hi)"
  shows "DecodeRuneInString (c0 # rest) =
           (case rest of
              [] \<Rightarrow> (RuneError, 1)
            | c1 # r1 \<Rightarrow>
                if (of_char c1 :: nat) < lo \<or> hi < (of_char c1 :: nat) then (RuneError, 1)
                else (rune2 (of_char c0) (of_char c1), 2))"
  using assms by (cases rest) (simp_all add: DecodeRuneInString_def Let_def)

lemma DecodeRune_sz3:
  assumes "\<not> (of_char c0 :: nat) < 0x80" and "first (of_char c0) = Some (3, lo, hi)"
  shows "DecodeRuneInString (c0 # rest) =
           (case rest of
              c1 # c2 # r2 \<Rightarrow>
                if (of_char c1 :: nat) < lo \<or> hi < (of_char c1 :: nat) then (RuneError, 1)
                else if \<not> is_cont (of_char c2) then (RuneError, 1)
                else (rune3 (of_char c0) (of_char c1) (of_char c2), 3)
            | _ \<Rightarrow> (RuneError, 1))"
proof (cases rest)
  case Nil
  with assms show ?thesis by (simp add: DecodeRuneInString_def Let_def)
next
  case (Cons c1 r1)
  with assms show ?thesis
    by (cases r1) (simp_all add: DecodeRuneInString_def Let_def)
qed

lemma DecodeRune_sz4:
  assumes "\<not> (of_char c0 :: nat) < 0x80" and "first (of_char c0) = Some (4, lo, hi)"
  shows "DecodeRuneInString (c0 # rest) =
           (case rest of
              c1 # c2 # c3 # r3 \<Rightarrow>
                if (of_char c1 :: nat) < lo \<or> hi < (of_char c1 :: nat) then (RuneError, 1)
                else if \<not> is_cont (of_char c2) then (RuneError, 1)
                else if \<not> is_cont (of_char c3) then (RuneError, 1)
                else (rune4 (of_char c0) (of_char c1) (of_char c2) (of_char c3), 4)
            | _ \<Rightarrow> (RuneError, 1))"
proof (cases rest)
  case Nil
  with assms show ?thesis by (simp add: DecodeRuneInString_def Let_def)
next
  case (Cons c1 r1)
  show ?thesis
  proof (cases r1)
    case Nil
    with Cons assms show ?thesis by (simp add: DecodeRuneInString_def Let_def)
  next
    case (Cons c2 r2)
    with \<open>rest = c1 # r1\<close> assms show ?thesis
      by (cases r2) (simp_all add: DecodeRuneInString_def Let_def)
  qed
qed

text \<open>Case analysis on the first byte of an encoding.\<close>

lemma first_byte_cases:
  obtains (ascii) "(of_char c0 :: nat) < 0x80"
  | (invalid) "\<not> (of_char c0 :: nat) < 0x80" "first (of_char c0) = None"
  | (two) lo hi where "\<not> (of_char c0 :: nat) < 0x80" "first (of_char c0) = Some (2, lo, hi)"
      "0x80 \<le> lo" "hi \<le> 0xBF"
  | (three) lo hi where "\<not> (of_char c0 :: nat) < 0x80" "first (of_char c0) = Some (3, lo, hi)"
      "0x80 \<le> lo" "hi \<le> 0xBF"
  | (four) lo hi where "\<not> (of_char c0 :: nat) < 0x80" "first (of_char c0) = Some (4, lo, hi)"
      "0x80 \<le> lo" "hi \<le> 0xBF"
proof (cases "(of_char c0 :: nat) < 0x80")
  case True
  then show ?thesis by (rule ascii)
next
  case na: False
  show ?thesis
  proof (cases "first (of_char c0)")
    case None
    with na show ?thesis by (rule invalid)
  next
    case (Some t)
    obtain sz lo hi where t: "t = (sz, lo, hi)" by (cases t)
    from Some t first_Some [of "of_char c0" sz lo hi]
    have f: "first (of_char c0) = Some (sz, lo, hi)" and b: "0x80 \<le> lo" "hi \<le> 0xBF"
      and "sz = 2 \<or> sz = 3 \<or> sz = 4" by simp_all
    then consider "sz = 2" | "sz = 3" | "sz = 4" by blast
    then show ?thesis
    proof cases
      case 1 with na f b show ?thesis using two by simp
    next
      case 2 with na f b show ?thesis using three by simp
    next
      case 3 with na f b show ?thesis using four by simp
    qed
  qed
qed

lemma DecodeRune_size:
  assumes "s \<noteq> []"
  shows "1 \<le> snd (DecodeRuneInString s) \<and> snd (DecodeRuneInString s) \<le> length s"
proof -
  from assms obtain c0 rest where s: "s = c0 # rest" by (cases s) auto
  show ?thesis
  proof (cases c0 rule: first_byte_cases)
    case ascii
    then show ?thesis by (simp add: s DecodeRune_ascii)
  next
    case invalid
    then show ?thesis by (simp add: s DecodeRune_invalid)
  next
    case (two lo hi)
    then show ?thesis by (simp add: s DecodeRune_sz2 split: list.splits)
  next
    case (three lo hi)
    then show ?thesis by (simp add: s DecodeRune_sz3 split: list.splits)
  next
    case (four lo hi)
    then show ?thesis by (simp add: s DecodeRune_sz4 split: list.splits)
  qed
qed

text \<open>
  A rune that decodes from a string decodes from every extension of the string, with the
  same width.
\<close>

lemma DecodeRune_append:
  assumes "DecodeRuneInString u = (r, n)" and "2 \<le> n \<or> r \<noteq> RuneError"
  shows "DecodeRuneInString (u @ v) = (r, n)"
proof (cases u)
  case Nil
  with assms show ?thesis by (simp add: DecodeRune_Nil)
next
  case (Cons c0 rest)
  show ?thesis
  proof (cases c0 rule: first_byte_cases)
    case ascii
    with assms Cons show ?thesis by (simp add: DecodeRune_ascii)
  next
    case invalid
    with assms Cons show ?thesis by (simp add: DecodeRune_invalid)
  next
    case (two lo hi)
    with assms Cons show ?thesis
      by (auto simp: DecodeRune_sz2 split: list.splits if_splits)
  next
    case (three lo hi)
    with assms Cons show ?thesis
      by (auto simp: DecodeRune_sz3 split: list.splits if_splits)
  next
    case (four lo hi)
    with assms Cons show ?thesis
      by (auto simp: DecodeRune_sz4 split: list.splits if_splits)
  qed
qed

lemma not_IsSpace_RuneError: "\<not> IsSpace RuneError"
  by (simp add: IsSpace_def RuneError_def)

text \<open>A byte that is not ASCII and is followed by the start of a rune decodes with width 1.\<close>

lemma DecodeRune_before_start:
  assumes "\<not> (of_char c0 :: nat) < 0x80" and "q = [] \<or> RuneStart (hd q)"
  shows "DecodeRuneInString (c0 # q) = (RuneError, 1)"
proof (cases c0 rule: first_byte_cases)
  case ascii
  with assms show ?thesis by simp
next
  case invalid
  then show ?thesis by (simp add: DecodeRune_invalid)
next
  case (two lo hi)
  with assms(2) show ?thesis
    by (auto simp: DecodeRune_sz2 RuneStart_def is_cont_def split: list.splits)
next
  case (three lo hi)
  with assms(2) show ?thesis
    by (auto simp: DecodeRune_sz3 RuneStart_def is_cont_def split: list.splits)
next
  case (four lo hi)
  with assms(2) show ?thesis
    by (auto simp: DecodeRune_sz4 RuneStart_def is_cont_def split: list.splits)
qed

text \<open>An encoding of several bytes starts at the start of a rune.\<close>

lemma DecodeRune_RuneStart:
  assumes "DecodeRuneInString (c0 # rest) = (r, n)" and "2 \<le> n \<or> r \<noteq> RuneError"
  shows "RuneStart c0"
proof (cases c0 rule: first_byte_cases)
  case ascii
  then show ?thesis by (simp add: RuneStart_def is_cont_def)
next
  case invalid
  with assms show ?thesis by (simp add: DecodeRune_invalid)
next
  case (two lo hi)
  then show ?thesis using first_None_cont [of "of_char c0"] by (auto simp: RuneStart_def)
next
  case (three lo hi)
  then show ?thesis using first_None_cont [of "of_char c0"] by (auto simp: RuneStart_def)
next
  case (four lo hi)
  then show ?thesis using first_None_cont [of "of_char c0"] by (auto simp: RuneStart_def)
qed

lemma DecodeRune_multibyte_not_ascii:
  assumes "DecodeRuneInString (c0 # rest) = (r, n)" and "2 \<le> n"
  shows "\<not> (of_char c0 :: nat) < 0x80"
  using assms by (auto simp: DecodeRune_ascii)

lemma find_Some_mem: "find P xs = Some x \<Longrightarrow> x \<in> set xs"
  by (induction xs) (auto split: if_splits)

lemma last_start_less: "s \<noteq> [] \<Longrightarrow> last_start s < length s"
proof -
  assume "s \<noteq> []"
  then have n: "0 < length s" by simp
  show ?thesis
  proof (cases "find (\<lambda>i. RuneStart (s ! i)) (rev [length s - 4 ..< length s - 1])")
    case None
    with n show ?thesis by (simp add: last_start_def Let_def)
  next
    case (Some i)
    then have "i \<in> set (rev [length s - 4 ..< length s - 1])"
      by (rule find_Some_mem)
    then have "i < length s" by (simp, arith)
    with Some show ?thesis by (simp add: last_start_def Let_def)
  qed
qed

lemma DecodeLast_Nil: "DecodeLastRuneInString [] = (RuneError, 0)"
  by (simp add: DecodeLastRuneInString_def)

lemma DecodeLast_cases:
  assumes "s \<noteq> []" and "DecodeLastRuneInString s = (r, w)"
  obtains (ascii) "(of_char (last s) :: nat) < 0x80" "w = 1" "r = of_char (last s)"
  | (error) "\<not> (of_char (last s) :: nat) < 0x80" "w = 1" "r = RuneError"
  | (multi) "\<not> (of_char (last s) :: nat) < 0x80" "2 \<le> w" "w \<le> length s"
      "DecodeRuneInString (drop (length s - w) s) = (r, w)"
proof (cases "(of_char (last s) :: nat) < 0x80")
  case True
  from assms(1) have l: "s ! (length s - 1) = last s" by (simp add: last_conv_nth)
  from assms True have "(r, w) = (of_char (last s), 1)"
    unfolding DecodeLastRuneInString_def Let_def l by simp
  then have "w = 1" "r = of_char (last s)" by simp_all
  with True show ?thesis by (rule ascii)
next
  case na: False
  let ?st = "last_start s"
  obtain r' sz' where d: "DecodeRuneInString (drop ?st s) = (r', sz')"
    by (cases "DecodeRuneInString (drop ?st s)")
  from assms(1) have lt: "?st < length s" by (rule last_start_less)
  then have ne: "drop ?st s \<noteq> []" by simp
  from DecodeRune_size [OF ne] d have sz: "1 \<le> sz'" by simp
  from assms(1) have l: "s ! (length s - 1) = last s" by (simp add: last_conv_nth)
  from assms na d have res: "(r, w) = (if ?st + sz' \<noteq> length s then (RuneError, 1) else (r', sz'))"
    unfolding DecodeLastRuneInString_def Let_def l by simp
  show ?thesis
  proof (cases "?st + sz' = length s")
    case False
    with res have "w = 1" "r = RuneError" by simp_all
    with na show ?thesis by (rule error)
  next
    case True
    with res have eq: "r = r'" "w = sz'" by simp_all
    show ?thesis
    proof (cases "sz' = 1")
      case True
      with \<open>?st + sz' = length s\<close> have st: "?st = length s - 1" by simp
      with assms(1) have "drop ?st s = [last s]"
        by (metis append_butlast_last_id append_eq_conv_conj length_butlast)
      with d na have "(r', sz') = (RuneError, 1)"
        using DecodeRune_before_start [of "last s" "[]"] by simp
      with eq have "w = 1" "r = RuneError" by simp_all
      with na show ?thesis by (rule error)
    next
      case False
      with sz have "2 \<le> sz'" by simp
      moreover from True have "length s - sz' = ?st" by simp
      ultimately show ?thesis using na d eq True by (intro multi) simp_all
    qed
  qed
qed

lemma DecodeLast_size:
  assumes "s \<noteq> []"
  shows "1 \<le> snd (DecodeLastRuneInString s) \<and> snd (DecodeLastRuneInString s) \<le> length s"
proof -
  obtain r w where d: "DecodeLastRuneInString s = (r, w)"
    by (cases "DecodeLastRuneInString s")
  from assms d show ?thesis
    by (cases rule: DecodeLast_cases) (use assms d in \<open>auto simp: Suc_leI\<close>)
qed

termination TrimLeftFunc
proof (relation "measure length")
  show "wf (measure length)" by simp
next
  fix c cs x r w
  assume "x = DecodeRuneInString (c # cs)" and "(r, w) = x"
  then have "w = snd (DecodeRuneInString (c # cs))" by (metis snd_conv)
  with DecodeRune_size [of "c # cs"] have "1 \<le> w" by simp
  then show "(drop w (c # cs), c # cs) \<in> measure length" by simp
qed

termination lastIndexFunc
proof (relation "measure length")
  show "wf (measure length)" by simp
next
  fix c cs x r w
  assume "x = DecodeLastRuneInString (c # cs)" and "(r, w) = x"
  then have "w = snd (DecodeLastRuneInString (c # cs))" by (metis snd_conv)
  with DecodeLast_size [of "c # cs"] have "1 \<le> w" by simp
  then show "(take (length (c # cs) - w) (c # cs), c # cs) \<in> measure length" by simp
qed

termination trimmed_length
proof (relation "measure length")
  show "wf (measure length)" by simp
next
  fix c cs x r w
  assume "x = DecodeLastRuneInString (c # cs)" and "(r, w) = x"
  then have "w = snd (DecodeLastRuneInString (c # cs))" by (metis snd_conv)
  with DecodeLast_size [of "c # cs"] have "1 \<le> w" by simp
  then show "(take (length (c # cs) - w) (c # cs), c # cs) \<in> measure length" by simp
qed

lemma TrimLeftFunc_step:
  "s \<noteq> [] \<Longrightarrow>
     TrimLeftFunc s =
       (if IsSpace (fst (DecodeRuneInString s))
        then TrimLeftFunc (drop (snd (DecodeRuneInString s)) s) else s)"
  by (cases s) (simp_all add: case_prod_unfold Let_def)

lemma lastIndexFunc_step:
  "s \<noteq> [] \<Longrightarrow>
     lastIndexFunc s =
       (if \<not> IsSpace (fst (DecodeLastRuneInString s))
        then int (length s - snd (DecodeLastRuneInString s))
        else lastIndexFunc (take (length s - snd (DecodeLastRuneInString s)) s))"
  by (cases s) (simp_all add: case_prod_unfold Let_def)

lemma trimmed_length_step:
  "s \<noteq> [] \<Longrightarrow>
     trimmed_length s =
       (if IsSpace (fst (DecodeLastRuneInString s))
        then trimmed_length (take (length s - snd (DecodeLastRuneInString s)) s)
        else length s)"
  by (cases s) (simp_all add: case_prod_unfold Let_def)

lemma take_take_le:
  assumes "m \<le> length (take k s)"
  shows "take m (take k s) = take m s"
proof -
  from assms have "m \<le> k" by simp
  then have "min m k = m" by simp
  then show ?thesis by (simp only: take_take)
qed

lemma trimmed_length_le: "trimmed_length s \<le> length s"
proof (induction "length s" arbitrary: s rule: less_induct)
  case less
  show ?case
  proof (cases "s = []")
    case True
    then show ?thesis by simp
  next
    case False
    let ?w = "snd (DecodeLastRuneInString s)"
    from DecodeLast_size [OF False] have w: "1 \<le> ?w" "?w \<le> length s" by simp_all
    with False have "length (take (length s - ?w) s) < length s" by simp
    from less [OF this] have "trimmed_length (take (length s - ?w) s) \<le> length s" by simp
    with False show ?thesis by (simp add: trimmed_length_step)
  qed
qed

text \<open>The length that is kept depends on the kept bytes only: trimming again changes nothing.\<close>

lemma trimmed_length_fixed: "trimmed_length (take (trimmed_length s) s) = trimmed_length s"
proof (induction "length s" arbitrary: s rule: less_induct)
  case less
  show ?case
  proof (cases "s = []")
    case True
    then show ?thesis by simp
  next
    case False
    let ?w = "snd (DecodeLastRuneInString s)"
    let ?p = "take (length s - ?w) s"
    from DecodeLast_size [OF False] have w: "1 \<le> ?w" "?w \<le> length s" by simp_all
    show ?thesis
    proof (cases "IsSpace (fst (DecodeLastRuneInString s))")
      case True
      with False have e: "trimmed_length s = trimmed_length ?p"
        by (simp add: trimmed_length_step)
      from w False have "length ?p < length s" by simp
      from less [OF this] have IH: "trimmed_length (take (trimmed_length ?p) ?p) = trimmed_length ?p" .
      have "trimmed_length ?p \<le> length ?p" by (rule trimmed_length_le)
      then have "take (trimmed_length ?p) ?p = take (trimmed_length ?p) s"
        by (rule take_take_le)
      with IH e show ?thesis by simp
    next
      case False
      with \<open>s \<noteq> []\<close> have "trimmed_length s = length s"
        by (simp add: trimmed_length_step)
      then show ?thesis by simp
    qed
  qed
qed

text \<open>
  The width that \<open>TrimRightFunc\<close> reads forwards at the index \<open>lastIndexFunc\<close> returns is the
  width that the loop read backwards, so that \<open>TrimRightFunc\<close> keeps \<open>trimmed_length\<close> bytes.
\<close>

lemma TrimRightFunc_general:
  assumes "q = [] \<or> RuneStart (hd q)" and "t = p @ q"
  shows "(let i = lastIndexFunc p
          in if 0 \<le> i \<and> 0x80 \<le> (of_char (t ! nat i) :: nat)
             then take (nat i + snd (DecodeRuneInString (drop (nat i) t))) t
             else take (nat (i + 1)) t)
         = take (trimmed_length p) p"
  using assms
proof (induction "length p" arbitrary: p q rule: less_induct)
  case less
  note t = \<open>t = p @ q\<close>
  show ?case
  proof (cases "p = []")
    case True
    then show ?thesis by simp
  next
    case ne: False
    obtain r w where d: "DecodeLastRuneInString p = (r, w)"
      by (cases "DecodeLastRuneInString p")
    from DecodeLast_size [OF ne] d have w: "1 \<le> w" "w \<le> length p" by simp_all
    let ?p' = "take (length p - w) p"
    let ?q' = "drop (length p - w) p @ q"
    from t have split: "t = ?p' @ ?q'" by simp
    show ?thesis
    proof (cases "IsSpace r")
      case sp: True
      from ne d sp have li: "lastIndexFunc p = lastIndexFunc ?p'"
        by (simp add: lastIndexFunc_step)
      from ne d sp have tl: "trimmed_length p = trimmed_length ?p'"
        by (simp add: trimmed_length_step)
      from w ne have dne: "drop (length p - w) p \<noteq> []" by simp
      then obtain c0 rest where dr: "drop (length p - w) p = c0 # rest"
        by (cases "drop (length p - w) p") auto
      have "RuneStart c0"
        using ne d
      proof (cases rule: DecodeLast_cases)
        case ascii
        with w ne have "drop (length p - w) p = [last p]"
          by (metis append_butlast_last_id append_eq_conv_conj length_butlast)
        with dr ascii show ?thesis by (simp add: RuneStart_def is_cont_def)
      next
        case error
        with sp show ?thesis by (simp add: not_IsSpace_RuneError)
      next
        case multi
        with dr show ?thesis by (auto intro: DecodeRune_RuneStart)
      qed
      with dr have q': "?q' = [] \<or> RuneStart (hd ?q')" by simp
      from w ne have "length ?p' < length p" by simp
      from less(1) [OF this q' split]
      have "(let i = lastIndexFunc ?p'
          in if 0 \<le> i \<and> 0x80 \<le> (of_char (t ! nat i) :: nat)
             then take (nat i + snd (DecodeRuneInString (drop (nat i) t))) t
             else take (nat (i + 1)) t)
         = take (trimmed_length ?p') ?p'" .
      moreover have "trimmed_length ?p' \<le> length ?p'" by (rule trimmed_length_le)
      then have "take (trimmed_length ?p') ?p' = take (trimmed_length ?p') p"
        by (rule take_take_le)
      ultimately show ?thesis by (simp only: li tl)
    next
      case nsp: False
      define k where "k = length p - w"
      from w have kw: "k + w = length p" and kl: "k < length p" by (simp_all add: k_def)
      from ne d nsp have li: "lastIndexFunc p = int k"
        by (simp add: lastIndexFunc_step k_def)
      from ne d nsp have tl: "trimmed_length p = length p"
        by (simp add: trimmed_length_step)
      have idx: "t ! k = p ! k"
        using kl t by (simp add: nth_append)
      have dr: "drop k t = drop k p @ q"
        using kl t by simp
      have tk: "take (length p) t = p" using t by simp
      have goal: "(let i = lastIndexFunc p
          in if 0 \<le> i \<and> 0x80 \<le> (of_char (t ! nat i) :: nat)
             then take (nat i + snd (DecodeRuneInString (drop (nat i) t))) t
             else take (nat (i + 1)) t)
         = (if 0x80 \<le> (of_char (p ! k) :: nat)
            then take (k + snd (DecodeRuneInString (drop k p @ q))) t
            else take (Suc k) t)"
        by (simp add: li Let_def idx dr nat_add_distrib)
      have "(if 0x80 \<le> (of_char (p ! k) :: nat)
            then take (k + snd (DecodeRuneInString (drop k p @ q))) t
            else take (Suc k) t) = p"
        using ne d
      proof (cases rule: DecodeLast_cases)
        case ascii
        with ne kw have "p ! k = last p" "Suc k = length p"
          by (simp_all add: last_conv_nth k_def)
        with ascii tk show ?thesis by simp
      next
        case error
        with ne kw have l: "p ! k = last p" and sk: "Suc k = length p"
          by (simp_all add: last_conv_nth k_def)
        from sk ne have "drop k p = [last p]"
          by (metis append_butlast_last_id append_eq_conv_conj length_butlast diff_Suc_1)
        with error(1) less(2) have "snd (DecodeRuneInString (drop k p @ q)) = 1"
          by (simp add: DecodeRune_before_start)
        with error l sk tk show ?thesis by simp
      next
        case multi
        from kl obtain c0 rest where dc: "drop k p = c0 # rest"
          by (cases "drop k p") auto
        from kl dc have "p ! k = c0"
          by (metis Cons_nth_drop_Suc list.inject)
        moreover from multi dc have "\<not> (of_char c0 :: nat) < 0x80"
          by (auto dest: DecodeRune_multibyte_not_ascii simp: k_def)
        ultimately have na: "0x80 \<le> (of_char (p ! k) :: nat)" by simp
        from multi have "DecodeRuneInString (drop k p @ q) = (r, w)"
          unfolding k_def by (intro DecodeRune_append) simp_all
        with na kw tk show ?thesis by simp
      qed
      with goal tl show ?thesis by simp
    qed
  qed
qed

lemma TrimRightFunc_eq: "TrimRightFunc s = take (trimmed_length s) s"
proof -
  have "[] = [] \<or> RuneStart (hd [])" and "s = s @ []" by simp_all
  then show ?thesis
    unfolding TrimRightFunc_def by (rule TrimRightFunc_general)
qed

lemma TrimRightFunc_fixed: "TrimRightFunc (TrimRightFunc s) = TrimRightFunc s"
proof -
  have "TrimRightFunc (TrimRightFunc s)
          = take (trimmed_length (take (trimmed_length s) s)) (take (trimmed_length s) s)"
    by (simp only: TrimRightFunc_eq)
  also have "\<dots> = take (trimmed_length s) (take (trimmed_length s) s)"
    by (simp only: trimmed_length_fixed)
  also have "\<dots> = take (trimmed_length s) s"
    by simp
  finally show ?thesis by (simp only: TrimRightFunc_eq)
qed

lemma TrimLeftFunc_suffix: "\<exists>k. TrimLeftFunc s = drop k s"
proof (induction "length s" arbitrary: s rule: less_induct)
  case less
  show ?case
  proof (cases "s = []")
    case True
    then show ?thesis by simp
  next
    case False
    let ?w = "snd (DecodeRuneInString s)"
    from DecodeRune_size [OF False] have w: "1 \<le> ?w" "?w \<le> length s" by simp_all
    show ?thesis
    proof (cases "IsSpace (fst (DecodeRuneInString s))")
      case True
      from w False have "length (drop ?w s) < length s" by simp
      from less [OF this] obtain k where "TrimLeftFunc (drop ?w s) = drop k (drop ?w s)" by blast
      with True False have "TrimLeftFunc s = drop (?w + k) s"
        by (simp add: TrimLeftFunc_step add.commute)
      then show ?thesis by blast
    next
      case nsp: False
      with False have "TrimLeftFunc s = drop 0 s" by (simp add: TrimLeftFunc_step)
      then show ?thesis by blast
    qed
  qed
qed

lemma TrimLeftFunc_starts:
  "TrimLeftFunc s \<noteq> [] \<Longrightarrow> \<not> IsSpace (fst (DecodeRuneInString (TrimLeftFunc s)))"
proof (induction "length s" arbitrary: s rule: less_induct)
  case less
  from less.prems have ne: "s \<noteq> []" by auto
  let ?w = "snd (DecodeRuneInString s)"
  from DecodeRune_size [OF ne] have w: "1 \<le> ?w" "?w \<le> length s" by simp_all
  show ?case
  proof (cases "IsSpace (fst (DecodeRuneInString s))")
    case True
    with ne have e: "TrimLeftFunc s = TrimLeftFunc (drop ?w s)" by (simp add: TrimLeftFunc_step)
    from w ne have "length (drop ?w s) < length s" by simp
    from less(1) [OF this] less.prems e show ?thesis by simp
  next
    case False
    with ne show ?thesis by (simp add: TrimLeftFunc_step)
  qed
qed

lemma IsSpace_take:
  assumes "IsSpace (fst (DecodeRuneInString (take k s)))"
  shows "IsSpace (fst (DecodeRuneInString s))"
proof -
  obtain r n where d: "DecodeRuneInString (take k s) = (r, n)"
    by (cases "DecodeRuneInString (take k s)")
  with assms have "r \<noteq> RuneError" using not_IsSpace_RuneError by auto
  with d have "DecodeRuneInString (take k s @ drop k s) = (r, n)"
    by (intro DecodeRune_append) simp_all
  with assms d show ?thesis by simp
qed

lemma TrimLeftFunc_TrimSpace: "TrimLeftFunc (TrimSpace s) = TrimSpace s"
proof (cases "TrimSpace s = []")
  case True
  then show ?thesis by simp
next
  case False
  let ?a = "TrimLeftFunc s"
  have t: "TrimSpace s = take (trimmed_length ?a) ?a"
    by (simp add: TrimSpace_def TrimRightFunc_eq)
  with False have "?a \<noteq> []" by auto
  then have "\<not> IsSpace (fst (DecodeRuneInString ?a))" by (rule TrimLeftFunc_starts)
  with IsSpace_take [of "trimmed_length ?a" ?a] t
  have "\<not> IsSpace (fst (DecodeRuneInString (TrimSpace s)))" by auto
  with False show ?thesis by (simp add: TrimLeftFunc_step)
qed

lemma TrimSpace_TrimSpace: "TrimSpace (TrimSpace s) = TrimSpace s"
proof -
  have "TrimSpace (TrimSpace s) = TrimRightFunc (TrimLeftFunc (TrimSpace s))"
    by (simp add: TrimSpace_def)
  also have "\<dots> = TrimRightFunc (TrimSpace s)"
    by (simp add: TrimLeftFunc_TrimSpace)
  also have "\<dots> = TrimSpace s"
    by (simp add: TrimSpace_def TrimRightFunc_fixed)
  finally show ?thesis .
qed

lemma set_TrimSpace: "set (TrimSpace l) \<subseteq> set l"
proof -
  obtain k where "TrimLeftFunc l = drop k l" using TrimLeftFunc_suffix by blast
  then have "TrimSpace l = take (trimmed_length (drop k l)) (drop k l)"
    by (simp add: TrimSpace_def TrimRightFunc_eq)
  then show ?thesis
    by (metis set_drop_subset set_take_subset subset_trans)
qed

lemma TrimSpace_Nil: "TrimSpace [] = []"
  by (simp add: TrimSpace_def TrimRightFunc_def)

termination Fields_from
proof (relation "measure (\<lambda>(cur, s). length s)")
  show "wf (measure (\<lambda>(cur, s). length s))" by simp
next
  fix cur c cs x r w
  assume "x = DecodeRuneInString (c # cs)" and "(r, w) = x"
  then have "w = snd (DecodeRuneInString (c # cs))" by (metis snd_conv)
  with DecodeRune_size [of "c # cs"] have "1 \<le> w" by simp
  then show "(([], drop w (c # cs)), cur, c # cs) \<in> measure (\<lambda>(cur, s). length s)" by simp
next
  fix cur c cs x r w
  assume "x = DecodeRuneInString (c # cs)" and "(r, w) = x"
  then have "w = snd (DecodeRuneInString (c # cs))" by (metis snd_conv)
  with DecodeRune_size [of "c # cs"] have "1 \<le> w" by simp
  then show "(([], drop w (c # cs)), cur, c # cs) \<in> measure (\<lambda>(cur, s). length s)" by simp
next
  fix cur c cs x r w
  assume "x = DecodeRuneInString (c # cs)" and "(r, w) = x"
  then have "w = snd (DecodeRuneInString (c # cs))" by (metis snd_conv)
  with DecodeRune_size [of "c # cs"] have "1 \<le> w" by simp
  then show "((cur @ take w (c # cs), drop w (c # cs)), cur, c # cs)
               \<in> measure (\<lambda>(cur, s). length s)" by simp
qed

lemma Fields_from_step:
  "s \<noteq> [] \<Longrightarrow>
     Fields_from cur s =
       (if IsSpace (fst (DecodeRuneInString s))
        then (if cur = [] then Fields_from [] (drop (snd (DecodeRuneInString s)) s)
              else cur # Fields_from [] (drop (snd (DecodeRuneInString s)) s))
        else Fields_from (cur @ take (snd (DecodeRuneInString s)) s)
               (drop (snd (DecodeRuneInString s)) s))"
  by (cases s) (simp_all add: case_prod_unfold Let_def)

text \<open>No field is empty.\<close>

lemma Fields_from_nonempty: "[] \<notin> set (Fields_from cur s)"
proof (induction "length s" arbitrary: s cur rule: less_induct)
  case less
  show ?case
  proof (cases "s = []")
    case True
    then show ?thesis by simp
  next
    case False
    let ?w = "snd (DecodeRuneInString s)"
    from DecodeRune_size [OF False] have "1 \<le> ?w" by simp
    with False have l: "length (drop ?w s) < length s" by simp
    from less [OF l] have "[] \<notin> set (Fields_from [] (drop ?w s))"
      and "[] \<notin> set (Fields_from (cur @ take ?w s) (drop ?w s))" by blast+
    with False show ?thesis by (simp add: Fields_from_step)
  qed
qed

lemma Fields_nonempty: "[] \<notin> set (Fields s)"
  by (simp add: Fields_def Fields_from_nonempty)

text \<open>
  The definitions by which \<open>TrimSpace\<close> and \<open>Fields\<close> are evaluated on a given string,
  and some values: U+00A0 (bytes \<open>C2 A0\<close>), U+2003 (\<open>E2 80 83\<close>) and U+3000 (\<open>E3 80 80\<close>)
  are white space; a byte \<open>A0\<close> alone is not an encoding, and is kept.
\<close>

lemmas utf8_eval = DecodeRuneInString_def DecodeLastRuneInString_def last_start_def
  first_def is_cont_def RuneStart_def rune2_def rune3_def rune4_def IsSpace_def RuneError_def
  TrimSpace_def TrimRightFunc_def Let_def Fields_def

lemma TrimSpace_ascii_example:
  "TrimSpace ''  bash: dolt: no such file or directory ''
     = ''bash: dolt: no such file or directory''"
  by (simp add: utf8_eval)

lemma TrimSpace_nbsp_example: "TrimSpace [CHR 0xC2, CHR 0xA0] = []"
  by (simp add: utf8_eval)

lemma TrimSpace_unicode_example:
  "TrimSpace ([CHR 0xE2, CHR 0x80, CHR 0x83] @ ''a b'' @ [CHR 0xE3, CHR 0x80, CHR 0x80, CHR 0x0D])
     = ''a b''"
  by (simp add: utf8_eval)

lemma TrimSpace_invalid_example: "TrimSpace [CHR 0xA0, CHR 0x20] = [CHR 0xA0]"
  by (simp add: utf8_eval)

lemma Fields_nbsp_example: "Fields (''ssh'' @ [CHR 0xC2, CHR 0xA0] @ ''-q'') = [''ssh'', ''-q'']"
  by (simp add: utf8_eval)

lemma Fields_blank_example: "Fields ([CHR 0xC2, CHR 0xA0] @ ''  '') = []"
  by (simp add: utf8_eval)

section \<open>Splitting and joining\<close>

lemma Split_no_sep: "l \<in> set (Split s c) \<Longrightarrow> c \<notin> set l"
  by (induction s arbitrary: l) (auto split: list.splits if_splits)

lemma Split_single: "c \<notin> set l \<Longrightarrow> Split l c = [l]"
  by (induction l) auto

lemma Split_append: "c \<notin> set l \<Longrightarrow> Split (l @ c # s) c = l # Split s c"
  by (induction l) auto

text \<open>Splitting undoes joining, for lines that do not contain the separator.\<close>

lemma Split_Join:
  "ls \<noteq> [] \<Longrightarrow> \<forall>l\<in>set ls. c \<notin> set l \<Longrightarrow> Split (Join ls [c]) c = ls"
proof (induction ls "[c]" rule: Join.induct)
  case 1
  then show ?case by simp
next
  case (2 l)
  then show ?case by (simp add: Split_single)
next
  case (3 l l' ls)
  then show ?case by (simp add: Split_append)
qed

section \<open>The stderr filter\<close>

text \<open>The loop appends to \<open>lines\<close> the trimmed lines that are kept, in order.\<close>

lemma filterSSHNoise_loop_eq:
  "filterSSHNoise_loop acc ls = acc @ filter substantive (map TrimSpace ls)"
  by (induction ls arbitrary: acc) (auto simp: substantive_def Let_def)

lemma filterSSHNoise_eq:
  "filterSSHNoise s = Join (filter substantive (map TrimSpace (Split s newline))) [newline]"
  by (simp add: filterSSHNoise_def filterSSHNoise_loop_eq)

lemma kept_lines_fixed:
  "filter substantive (map TrimSpace (filter substantive (map TrimSpace ls)))
     = filter substantive (map TrimSpace ls)"
  by (induction ls) (auto simp: TrimSpace_TrimSpace)

lemma kept_lines_no_sep:
  "l \<in> set (filter substantive (map TrimSpace (Split s c))) \<Longrightarrow> c \<notin> set l"
  using Split_no_sep set_TrimSpace by fastforce

text \<open>
  Claim C9. \<open>filterSSHNoise\<close> is idempotent: filtering an already filtered text returns
  it unchanged, for every input string.
\<close>

theorem filterSSHNoise_idempotent: "filterSSHNoise (filterSSHNoise s) = filterSSHNoise s"
proof -
  let ?L = "filter substantive (map TrimSpace (Split s newline))"
  show ?thesis
  proof (cases "?L = []")
    case True
    then have "filterSSHNoise s = []" by (simp add: filterSSHNoise_eq)
    moreover have "filterSSHNoise [] = []"
      by (simp add: filterSSHNoise_eq TrimSpace_Nil substantive_def)
    ultimately show ?thesis by simp
  next
    case False
    have "\<forall>l\<in>set ?L. newline \<notin> set l"
      using kept_lines_no_sep by blast
    with False have "Split (Join ?L [newline]) newline = ?L"
      by (rule Split_Join)
    then have "filterSSHNoise (filterSSHNoise s)
                 = Join (filter substantive (map TrimSpace ?L)) [newline]"
      by (simp add: filterSSHNoise_eq)
    then show ?thesis
      by (simp add: kept_lines_fixed filterSSHNoise_eq)
  qed
qed

section \<open>Parsing the URL\<close>

lemma LastIndex_ge: "LastIndex s c \<ge> - 1"
  by (induction s) (auto simp: Let_def)

lemma LastIndex_absent: "LastIndex s c = - 1 \<longleftrightarrow> c \<notin> set s"
proof (induction s)
  case Nil
  then show ?case by simp
next
  case (Cons x xs)
  have "LastIndex xs c \<ge> - 1" by (rule LastIndex_ge)
  with Cons show ?case by (auto simp: Let_def)
qed

lemma LastIndex_nonneg: "c \<in> set s \<Longrightarrow> \<not> LastIndex s c < 0"
  using LastIndex_ge [of s c] LastIndex_absent [of s c] by linarith

text \<open>
  \<open>LastIndex\<close> finds the last occurrence: the string splits there into the part before,
  the byte, and a rest in which the byte does not occur.
\<close>

lemma LastIndex_split:
  "c \<in> set s \<Longrightarrow>
     s = take (nat (LastIndex s c)) s @ c # drop (nat (LastIndex s c + 1)) s
     \<and> c \<notin> set (drop (nat (LastIndex s c + 1)) s)"
proof (induction s)
  case Nil
  then show ?case by simp
next
  case (Cons x xs)
  show ?case
  proof (cases "c \<in> set xs")
    case True
    with Cons.IH have IH:
      "xs = take (nat (LastIndex xs c)) xs @ c # drop (nat (LastIndex xs c + 1)) xs"
      "c \<notin> set (drop (nat (LastIndex xs c + 1)) xs)" by auto
    from True have ne: "LastIndex xs c \<noteq> - 1" by (simp add: LastIndex_absent)
    with LastIndex_ge [of xs c] have ge: "LastIndex xs c \<ge> 0" by linarith
    then have n1: "nat (LastIndex xs c + 1) = Suc (nat (LastIndex xs c))"
      and n2: "nat (LastIndex xs c + 1 + 1) = Suc (Suc (nat (LastIndex xs c)))"
      by linarith+
    from ne have L: "LastIndex (x # xs) c = LastIndex xs c + 1" by (simp add: Let_def)
    show ?thesis
      unfolding L n1 n2 using IH n1 by simp
  next
    case False
    then have "LastIndex xs c = - 1" by (simp add: LastIndex_absent)
    moreover from False Cons.prems have "x = c" by simp
    ultimately show ?thesis using False by (simp add: Let_def)
  qed
qed

lemma CreateDB_parse_at:
  assumes "CHR ''@'' \<in> set (Hostname urlObj)"
  shows "CreateDB_parse urlObj =
           (drop (nat (LastIndex (Hostname urlObj) (CHR ''@'') + 1)) (Hostname urlObj),
            Port urlObj, TrimSuffix (Path urlObj) ''/.dolt'',
            take (nat (LastIndex (Hostname urlObj) (CHR ''@''))) (Hostname urlObj))"
  using assms by (simp add: CreateDB_parse_def Let_def LastIndex_absent)

text \<open>Without an \<open>@\<close> in the host, the user is the user name of the URL, if it has one.\<close>

lemma CreateDB_parse_no_at:
  assumes "CHR ''@'' \<notin> set (Hostname urlObj)"
  shows "CreateDB_parse urlObj =
           (Hostname urlObj, Port urlObj, TrimSuffix (Path urlObj) ''/.dolt'',
            (case User urlObj of None \<Rightarrow> [] | Some ui \<Rightarrow> Username ui))"
  using assms by (simp add: CreateDB_parse_def Let_def LastIndex_absent)

lemma CreateDB_parse_path:
  "CreateDB_parse urlObj = (host, port, path, user) \<Longrightarrow>
     path = TrimSuffix (Path urlObj) ''/.dolt''"
  by (auto simp: CreateDB_parse_def Let_def split: if_splits)

lemma TrimSuffix_append: "TrimSuffix (p @ s) s = p"
  by (simp add: TrimSuffix_def HasSuffix_def)

lemma TrimSuffix_other: "(\<nexists>p. t = p @ s) \<Longrightarrow> TrimSuffix t s = t"
  unfolding TrimSuffix_def HasSuffix_def
  by (metis append_take_drop_id)

text \<open>
  Claim C1, as amended. For every URL with both a user-info field and an \<open>@\<close> in the
  host, \<open>CreateDB\<close> splits the host at its last \<open>@\<close>, and the user it passes to
  \<open>buildTransferCommand\<close> is the part of the host before that \<open>@\<close>, whatever the user-info
  field says: the prefix of the host takes precedence.
\<close>

theorem CreateDB_parse_host_prefix_overrides:
  assumes "User urlObj = Some ui"
    and "CHR ''@'' \<in> set (Hostname urlObj)"
    and "CreateDB_parse urlObj = (host, port, path, user)"
  shows "Hostname urlObj = user @ ''@'' @ host \<and> CHR ''@'' \<notin> set host"
proof -
  from assms(2,3) have
    h: "host = drop (nat (LastIndex (Hostname urlObj) (CHR ''@'') + 1)) (Hostname urlObj)"
    and u: "user = take (nat (LastIndex (Hostname urlObj) (CHR ''@''))) (Hostname urlObj)"
    by (simp_all add: CreateDB_parse_at)
  from LastIndex_split [OF assms(2)] show ?thesis
    unfolding h u by simp
qed

theorem CreateDB_parse_host_prefix_overrides_witness:
  "CreateDB_parse
     \<lparr>User = Some \<lparr>username = ''alice'', password = [], passwordSet = False\<rparr>,
      Host = ''bob@example.com:2222'', Path = ''/srv/repo/.dolt''\<rparr>
     = (''example.com'', ''2222'', ''/srv/repo'', ''bob'')
   \<and> Hostname
       \<lparr>User = Some \<lparr>username = ''alice'', password = [], passwordSet = False\<rparr>,
        Host = ''bob@example.com:2222'', Path = ''/srv/repo/.dolt''\<rparr>
     = ''bob'' @ ''@'' @ ''example.com''
   \<and> CHR ''@'' \<notin> set ''example.com''"
proof -
  let ?u = "\<lparr>User = Some \<lparr>username = ''alice'', password = [], passwordSet = False\<rparr>,
             Host = ''bob@example.com:2222'', Path = ''/srv/repo/.dolt''\<rparr>"
  have a: "User ?u = Some \<lparr>username = ''alice'', password = [], passwordSet = False\<rparr>"
    by simp
  have hn: "Hostname ?u = ''bob@example.com''"
    by (simp add: Hostname_def splitHostPort_def Let_def validOptionalPort_def isDigit_def
        HasPrefix_def HasSuffix_def)
  have b: "CHR ''@'' \<in> set (Hostname ?u)" unfolding hn by simp
  have c: "CreateDB_parse ?u = (''example.com'', ''2222'', ''/srv/repo'', ''bob'')"
    by (simp add: CreateDB_parse_def Hostname_def Port_def splitHostPort_def Let_def
        validOptionalPort_def isDigit_def HasPrefix_def HasSuffix_def TrimSuffix_def)
  from CreateDB_parse_host_prefix_overrides [OF a b c] c show ?thesis by simp
qed

text \<open>
  The claim as the specification states it fails: this URL has the user-info \<open>alice\<close> and
  the host \<open>bob@example.com\<close>, and the user passed on is \<open>bob\<close>.
\<close>

theorem CreateDB_user_info_precedence_counterexample:
  "User \<lparr>User = Some \<lparr>username = ''alice'', password = [], passwordSet = False\<rparr>,
         Host = ''bob@example.com'', Path = ''/srv/repo''\<rparr>
     = Some \<lparr>username = ''alice'', password = [], passwordSet = False\<rparr>
   \<and> CHR ''@'' \<in> set (Hostname
         \<lparr>User = Some \<lparr>username = ''alice'', password = [], passwordSet = False\<rparr>,
          Host = ''bob@example.com'', Path = ''/srv/repo''\<rparr>)
   \<and> CreateDB_parse
         \<lparr>User = Some \<lparr>username = ''alice'', password = [], passwordSet = False\<rparr>,
          Host = ''bob@example.com'', Path = ''/srv/repo''\<rparr>
       = (''example.com'', [], ''/srv/repo'', ''bob'')
   \<and> ''bob'' \<noteq> Username \<lparr>username = ''alice'', password = [], passwordSet = False\<rparr>"
  by (simp add: CreateDB_parse_def Hostname_def Port_def splitHostPort_def Let_def
        validOptionalPort_def isDigit_def HasPrefix_def HasSuffix_def TrimSuffix_def
        Username_def)

section \<open>The subprocess command\<close>

text \<open>The command of a successful \<open>buildTransferCommand\<close>, in full.\<close>

lemma buildTransferCommand_Args:
  assumes "buildTransferCommand getenv host port path user = Inr c"
  shows "Args c =
           Fields (if getenv ''DOLT_SSH'' = [] then ''ssh'' else getenv ''DOLT_SSH'')
           @ (if port = [] then [] else [''-p'', port])
           @ [if user \<noteq> [] then user @ ''@'' @ host else host,
              (if getenv ''DOLT_SSH_EXEC_PATH'' = [] then ''dolt''
               else getenv ''DOLT_SSH_EXEC_PATH'') @ '' --data-dir '' @ path @ '' transfer'']"
    and "Fields (if getenv ''DOLT_SSH'' = [] then ''ssh'' else getenv ''DOLT_SSH'') \<noteq> []"
  using assms
  by (auto simp: buildTransferCommand_def Let_def exec_Command_def split: if_splits)

text \<open>
  \<open>buildTransferCommand\<close> returns a command unless \<open>DOLT_SSH\<close> is set and consists of
  white space only; then it returns an error.
\<close>

lemma buildTransferCommand_returns:
  "(\<exists>c. buildTransferCommand getenv host port path user = Inr c)
     \<longleftrightarrow> Fields (if getenv ''DOLT_SSH'' = [] then ''ssh'' else getenv ''DOLT_SSH'') \<noteq> []"
  by (auto simp: buildTransferCommand_def Let_def)

lemma buildTransferCommand_empty:
  "Fields (if getenv ''DOLT_SSH'' = [] then ''ssh'' else getenv ''DOLT_SSH'') = [] \<Longrightarrow>
     buildTransferCommand getenv host port path user
       = Inl (ErrorString ''invalid DOLT_SSH command: empty'')"
  by (simp add: buildTransferCommand_def Let_def)

lemma Fields_ssh: "Fields ''ssh'' = [''ssh'']"
  by (simp add: utf8_eval)

lemma Fields_example: "Fields ''/usr/bin/ssh -q'' = [''/usr/bin/ssh'', ''-q'']"
  by (simp add: utf8_eval)

lemma Fields_dash_p: "Fields ''ssh -p'' = [''ssh'', ''-p'']"
  by (simp add: utf8_eval)

lemma buildTransferCommand_default_returns:
  "getenv ''DOLT_SSH'' = [] \<Longrightarrow> \<exists>c. buildTransferCommand getenv host port path user = Inr c"
  by (simp add: buildTransferCommand_returns Fields_ssh)

lemma CreateDB_parse_example:
  "CreateDB_parse example_url = (''example.com'', ''2222'', ''/srv/repo'', ''alice'')"
  by (simp add: example_url_def CreateDB_parse_def Hostname_def Port_def splitHostPort_def
      Let_def validOptionalPort_def isDigit_def HasPrefix_def HasSuffix_def TrimSuffix_def
      Username_def)

lemma buildTransferCommand_example:
  "buildTransferCommand example_env ''example.com'' ''2222'' ''/srv/repo'' ''alice''
     = Inr example_cmd"
  by (simp add: buildTransferCommand_def example_env_def example_cmd_def Let_def
      Fields_example exec_Command_def)

lemma buildTransferCommand_dash_p:
  "buildTransferCommand example_dash_p_env [] [] ''/srv/repo'' []
     = Inr \<lparr>Args = [''ssh'', ''-p'', [], ''dolt --data-dir /srv/repo transfer''],
            Process = None\<rparr>"
  by (simp add: buildTransferCommand_def example_dash_p_env_def Let_def Fields_dash_p
      exec_Command_def)

text \<open>
  \<open>CreateDB\<close> passes the path without the suffix to \<open>buildTransferCommand\<close>, and the
  command it starts is the command that \<open>buildTransferCommand\<close> returns.
\<close>

lemma CreateDB_parse_components:
  "\<exists>h p u. CreateDB_parse urlObj = (h, p, TrimSuffix (Path urlObj) ''/.dolt'', u)"
  by (simp add: CreateDB_parse_def Let_def)

lemma CreateDB_started:
  assumes "CreateDB getenv oc urlObj = (CmdStart c # evs, res)"
  shows "\<exists>h p u c0.
           buildTransferCommand getenv h p (TrimSuffix (Path urlObj) ''/.dolt'') u = Inr c0
           \<and> Args c = Args c0"
proof -
  obtain h p u where
    parse: "CreateDB_parse urlObj = (h, p, TrimSuffix (Path urlObj) ''/.dolt'', u)"
    using CreateDB_parse_components by blast
  show ?thesis
  proof (cases "buildTransferCommand getenv h p (TrimSuffix (Path urlObj) ''/.dolt'') u")
    case (Inl err)
    with assms parse show ?thesis by (simp add: CreateDB_def)
  next
    case (Inr c0)
    with assms parse have "c = c0\<lparr>Process := Some Running\<rparr>"
      by (auto simp: CreateDB_def Let_def split: sum.splits option.splits)
    then have "Args c = Args c0" by simp
    with Inr show ?thesis by blast
  qed
qed

lemma CreateDB_starts:
  assumes "Fields (if getenv ''DOLT_SSH'' = [] then ''ssh'' else getenv ''DOLT_SSH'') \<noteq> []"
    and "StdinPipe_err oc = None" and "StdoutPipe_err oc = None"
    and "StderrPipe_err oc = None" and "Start_err oc = None"
  shows "\<exists>c evs res. CreateDB getenv oc urlObj = (CmdStart c # evs, res)"
proof -
  obtain h p u where
    parse: "CreateDB_parse urlObj = (h, p, TrimSuffix (Path urlObj) ''/.dolt'', u)"
    using CreateDB_parse_components by blast
  from assms(1) obtain c0 where
    "buildTransferCommand getenv h p (TrimSuffix (Path urlObj) ''/.dolt'') u = Inr c0"
    using buildTransferCommand_returns by blast
  with parse assms(2-5) show ?thesis
    by (auto simp: CreateDB_def Let_def split: sum.splits option.splits)
qed

text \<open>
  Claim C5. For every host, port, path and user, the remote command that
  \<open>buildTransferCommand\<close> constructs is the one string
  \<open><remote-dolt-path> --data-dir <path> transfer\<close>, where the remote dolt path is the
  value of \<open>DOLT_SSH_EXEC_PATH\<close> when it is set (non-empty, as \<open>os.Getenv\<close> reports it)
  and \<open>dolt\<close> otherwise. The string is one argument, the last, of the SSH command, whose
  name and leading arguments are the fields of \<open>DOLT_SSH\<close> (of \<open>ssh\<close> when it is unset);
  only when \<open>DOLT_SSH\<close> has no field is there no command, and \<open>buildTransferCommand\<close>
  returns an error. The path that \<open>CreateDB\<close> hands over is the path of the URL
  without a trailing \<open>/.dolt\<close>, so that every command \<open>CreateDB\<close> starts ends in the remote
  command for that path; and \<open>CreateDB\<close> starts the command whenever the pipes can be
  created and the process can be started.
\<close>

theorem remote_command_string:
  "(Fields (if getenv ''DOLT_SSH'' = [] then ''ssh'' else getenv ''DOLT_SSH'') \<noteq> [] \<longrightarrow>
      (\<exists>c target.
         buildTransferCommand getenv host port path user = Inr c
         \<and> last (Args c) =
             (if getenv ''DOLT_SSH_EXEC_PATH'' = [] then ''dolt''
              else getenv ''DOLT_SSH_EXEC_PATH'')
             @ '' --data-dir '' @ path @ '' transfer''
         \<and> Args c =
             Fields (if getenv ''DOLT_SSH'' = [] then ''ssh'' else getenv ''DOLT_SSH'')
             @ (if port = [] then [] else [''-p'', port])
             @ [target,
                (if getenv ''DOLT_SSH_EXEC_PATH'' = [] then ''dolt''
                 else getenv ''DOLT_SSH_EXEC_PATH'')
                @ '' --data-dir '' @ path @ '' transfer'']))
   \<and> (Fields (if getenv ''DOLT_SSH'' = [] then ''ssh'' else getenv ''DOLT_SSH'') = [] \<longrightarrow>
        buildTransferCommand getenv host port path user
          = Inl (ErrorString ''invalid DOLT_SSH command: empty''))
   \<and> (\<exists>h p u. CreateDB_parse urlObj = (h, p, TrimSuffix (Path urlObj) ''/.dolt'', u))
   \<and> (\<forall>q. Path urlObj = q @ ''/.dolt'' \<longrightarrow> TrimSuffix (Path urlObj) ''/.dolt'' = q)
   \<and> ((\<nexists>q. Path urlObj = q @ ''/.dolt'') \<longrightarrow>
        TrimSuffix (Path urlObj) ''/.dolt'' = Path urlObj)
   \<and> (\<forall>c evs res.
        CreateDB getenv oc urlObj = (CmdStart c # evs, res) \<longrightarrow>
          last (Args c) =
            (if getenv ''DOLT_SSH_EXEC_PATH'' = [] then ''dolt''
             else getenv ''DOLT_SSH_EXEC_PATH'')
            @ '' --data-dir '' @ TrimSuffix (Path urlObj) ''/.dolt'' @ '' transfer'')
   \<and> (Fields (if getenv ''DOLT_SSH'' = [] then ''ssh'' else getenv ''DOLT_SSH'') \<noteq> []
        \<and> StdinPipe_err oc = None \<and> StdoutPipe_err oc = None
        \<and> StderrPipe_err oc = None \<and> Start_err oc = None \<longrightarrow>
        (\<exists>c evs res. CreateDB getenv oc urlObj = (CmdStart c # evs, res)))"
proof -
  let ?F = "Fields (if getenv ''DOLT_SSH'' = [] then ''ssh'' else getenv ''DOLT_SSH'')"
  let ?rd = "if getenv ''DOLT_SSH_EXEC_PATH'' = [] then ''dolt''
             else getenv ''DOLT_SSH_EXEC_PATH''"
  have 1: "?F \<noteq> [] \<longrightarrow>
      (\<exists>c target.
         buildTransferCommand getenv host port path user = Inr c
         \<and> last (Args c) = ?rd @ '' --data-dir '' @ path @ '' transfer''
         \<and> Args c = ?F @ (if port = [] then [] else [''-p'', port])
             @ [target, ?rd @ '' --data-dir '' @ path @ '' transfer''])"
  proof
    assume "?F \<noteq> []"
    then obtain c where c: "buildTransferCommand getenv host port path user = Inr c"
      using buildTransferCommand_returns by blast
    note A = buildTransferCommand_Args(1) [OF c]
    have "last (Args c) = ?rd @ '' --data-dir '' @ path @ '' transfer''"
      unfolding A by simp
    with c A show "\<exists>c target.
         buildTransferCommand getenv host port path user = Inr c
         \<and> last (Args c) = ?rd @ '' --data-dir '' @ path @ '' transfer''
         \<and> Args c = ?F @ (if port = [] then [] else [''-p'', port])
             @ [target, ?rd @ '' --data-dir '' @ path @ '' transfer'']"
      by blast
  qed
  have 2: "?F = [] \<longrightarrow>
        buildTransferCommand getenv host port path user
          = Inl (ErrorString ''invalid DOLT_SSH command: empty'')"
    using buildTransferCommand_empty by blast
  have 3: "\<exists>h p u. CreateDB_parse urlObj = (h, p, TrimSuffix (Path urlObj) ''/.dolt'', u)"
    by (rule CreateDB_parse_components)
  have 4: "\<forall>q. Path urlObj = q @ ''/.dolt'' \<longrightarrow> TrimSuffix (Path urlObj) ''/.dolt'' = q"
    using TrimSuffix_append by auto
  have 5: "(\<nexists>q. Path urlObj = q @ ''/.dolt'') \<longrightarrow>
             TrimSuffix (Path urlObj) ''/.dolt'' = Path urlObj"
    using TrimSuffix_other by blast
  have 6: "\<forall>c evs res.
        CreateDB getenv oc urlObj = (CmdStart c # evs, res) \<longrightarrow>
          last (Args c) =
            ?rd @ '' --data-dir '' @ TrimSuffix (Path urlObj) ''/.dolt'' @ '' transfer''"
  proof (intro allI impI)
    fix c evs res
    assume "CreateDB getenv oc urlObj = (CmdStart c # evs, res)"
    from CreateDB_started [OF this] obtain h p u c0 where
      b: "buildTransferCommand getenv h p (TrimSuffix (Path urlObj) ''/.dolt'') u = Inr c0"
      and a: "Args c = Args c0" by blast
    show "last (Args c) =
            ?rd @ '' --data-dir '' @ TrimSuffix (Path urlObj) ''/.dolt'' @ '' transfer''"
      unfolding a buildTransferCommand_Args(1) [OF b] by simp
  qed
  have 7: "?F \<noteq> [] \<and> StdinPipe_err oc = None \<and> StdoutPipe_err oc = None
        \<and> StderrPipe_err oc = None \<and> Start_err oc = None \<longrightarrow>
        (\<exists>c evs res. CreateDB getenv oc urlObj = (CmdStart c # evs, res))"
    using CreateDB_starts by blast
  from 1 2 3 4 5 6 7 show ?thesis by (intro conjI)
qed

theorem remote_command_string_witness:
  "Fields ''/usr/bin/ssh -q'' \<noteq> []
   \<and> (\<exists>c. buildTransferCommand example_env ''example.com'' ''2222'' ''/srv/repo'' ''alice''
            = Inr c
          \<and> last (Args c) = ''/custom/path/to/dolt --data-dir /srv/repo transfer'')
   \<and> Path example_url = ''/srv/repo'' @ ''/.dolt''
   \<and> TrimSuffix (Path example_url) ''/.dolt'' = ''/srv/repo''
   \<and> (\<exists>c evs res. CreateDB example_env example_outcomes example_url = (CmdStart c # evs, res)
          \<and> last (Args c) = ''/custom/path/to/dolt --data-dir /srv/repo transfer'')"
proof -
  note T = remote_command_string [of example_env "''example.com''" "''2222''" "''/srv/repo''"
      "''alice''" example_url example_outcomes]
  have s: "(if example_env ''DOLT_SSH'' = [] then ''ssh'' else example_env ''DOLT_SSH'')
             = ''/usr/bin/ssh -q''"
    by (simp add: example_env_def)
  have d: "(if example_env ''DOLT_SSH_EXEC_PATH'' = [] then ''dolt''
            else example_env ''DOLT_SSH_EXEC_PATH'') = ''/custom/path/to/dolt''"
    by (simp add: example_env_def)
  have f: "Fields ''/usr/bin/ssh -q'' \<noteq> []"
    by (simp add: Fields_example)
  have p: "Path example_url = ''/srv/repo'' @ ''/.dolt''"
    by (simp add: example_url_def)
  have o: "StdinPipe_err example_outcomes = None \<and> StdoutPipe_err example_outcomes = None
        \<and> StderrPipe_err example_outcomes = None \<and> Start_err example_outcomes = None"
    by (simp add: example_outcomes_def)
  from T [unfolded s d, THEN conjunct1] f
  have "\<exists>c target.
         buildTransferCommand example_env ''example.com'' ''2222'' ''/srv/repo'' ''alice''
           = Inr c
         \<and> last (Args c) = ''/custom/path/to/dolt'' @ '' --data-dir '' @ ''/srv/repo''
                            @ '' transfer''
         \<and> Args c = Fields ''/usr/bin/ssh -q'' @ (if ''2222'' = [] then [] else [''-p'', ''2222''])
             @ [target, ''/custom/path/to/dolt'' @ '' --data-dir '' @ ''/srv/repo''
                        @ '' transfer'']"
    by (rule mp)
  then have 1: "\<exists>c. buildTransferCommand example_env ''example.com'' ''2222'' ''/srv/repo''
                       ''alice'' = Inr c
          \<and> last (Args c) = ''/custom/path/to/dolt --data-dir /srv/repo transfer''"
    by auto
  from T [unfolded s d] have "\<forall>q. Path example_url = q @ ''/.dolt'' \<longrightarrow>
                  TrimSuffix (Path example_url) ''/.dolt'' = q"
    by blast
  with p have t: "TrimSuffix (Path example_url) ''/.dolt'' = ''/srv/repo''"
    by blast
  from T [unfolded s d] have all: "\<forall>c evs res.
        CreateDB example_env example_outcomes example_url = (CmdStart c # evs, res) \<longrightarrow>
          last (Args c) =
            ''/custom/path/to/dolt'' @ '' --data-dir ''
            @ TrimSuffix (Path example_url) ''/.dolt'' @ '' transfer''"
    by blast
  from T [unfolded s d] f o
  obtain c evs res where
    st: "CreateDB example_env example_outcomes example_url = (CmdStart c # evs, res)"
    by blast
  with all have "last (Args c) =
            ''/custom/path/to/dolt'' @ '' --data-dir ''
            @ TrimSuffix (Path example_url) ''/.dolt'' @ '' transfer''"
    by blast
  then have "last (Args c) = ''/custom/path/to/dolt --data-dir /srv/repo transfer''"
    unfolding t by simp
  with st have 2: "\<exists>c evs res.
          CreateDB example_env example_outcomes example_url = (CmdStart c # evs, res)
          \<and> last (Args c) = ''/custom/path/to/dolt --data-dir /srv/repo transfer''"
    by blast
  from f 1 p t 2 show ?thesis by (intro conjI)
qed

text \<open>\<open>adjacent a b xs\<close>: somewhere in \<open>xs\<close>, \<open>a\<close> is immediately followed by \<open>b\<close>.\<close>

lemma adjacent_iff: "adjacent a b xs \<longleftrightarrow> (\<exists>pre post. xs = pre @ [a, b] @ post)"
proof (induction xs rule: induct_list012)
  case 1
  then show ?case by simp
next
  case (2 v)
  show ?case
  proof
    assume "adjacent a b [v]"
    then show "\<exists>pre post. [v] = pre @ [a, b] @ post" by simp
  next
    assume "\<exists>pre post. [v] = pre @ [a, b] @ post"
    then obtain pre post where "[v] = pre @ [a, b] @ post" by blast
    then have "length [v] = length (pre @ [a, b] @ post)" by simp
    then show "adjacent a b [v]" by simp
  qed
next
  case (3 x y zs)
  show ?case
  proof
    assume "adjacent a b (x # y # zs)"
    then consider "x = a \<and> y = b" | "adjacent a b (y # zs)" by auto
    then show "\<exists>pre post. x # y # zs = pre @ [a, b] @ post"
    proof cases
      case 1
      then have "x # y # zs = [] @ [a, b] @ zs" by simp
      then show ?thesis by blast
    next
      case 2
      with "3.IH"(2) obtain pre post where "y # zs = pre @ [a, b] @ post" by blast
      then have "x # y # zs = (x # pre) @ [a, b] @ post" by simp
      then show ?thesis by blast
    qed
  next
    assume "\<exists>pre post. x # y # zs = pre @ [a, b] @ post"
    then obtain pre post where e: "x # y # zs = pre @ [a, b] @ post" by blast
    show "adjacent a b (x # y # zs)"
    proof (cases pre)
      case Nil
      with e show ?thesis by simp
    next
      case (Cons p pre')
      with e have "y # zs = pre' @ [a, b] @ post" by simp
      then have "\<exists>pre post. y # zs = pre @ [a, b] @ post" by blast
      with "3.IH"(2) have "adjacent a b (y # zs)" by blast
      then show ?thesis by simp
    qed
  qed
qed

lemma adjacent_append: "adjacent a b (xs @ a # b # ys)"
  by (induction xs rule: induct_list012) auto

lemma not_adjacent_tail:
  assumes "b \<notin> set F" and "F \<noteq> []" and "last F \<noteq> a" and "rc \<noteq> b"
  shows "\<not> adjacent a b (F @ [t, rc])"
  using assms
proof (induction F rule: induct_list012)
  case 1
  then show ?case by simp
next
  case (2 x)
  then show ?case by simp
next
  case (3 x y zs)
  then show ?case by auto
qed

text \<open>
  Unless \<open>DOLT_SSH\<close> itself ends in \<open>-p\<close>, the argument list has \<open>-p\<close> immediately
  followed by the port somewhere if and only if the port is not empty.
\<close>

lemma port_pair_iff:
  assumes "buildTransferCommand getenv host port path user = Inr c"
    and "last (Fields (if getenv ''DOLT_SSH'' = [] then ''ssh'' else getenv ''DOLT_SSH'')) \<noteq> ''-p''"
  shows "adjacent ''-p'' port (Args c) \<longleftrightarrow> port \<noteq> []"
proof (cases "port = []")
  case True
  let ?F = "Fields (if getenv ''DOLT_SSH'' = [] then ''ssh'' else getenv ''DOLT_SSH'')"
  note A = buildTransferCommand_Args [OF assms(1)]
  have "\<not> adjacent ''-p'' [] (?F @ [if user \<noteq> [] then user @ ''@'' @ host else host,
              (if getenv ''DOLT_SSH_EXEC_PATH'' = [] then ''dolt''
               else getenv ''DOLT_SSH_EXEC_PATH'') @ '' --data-dir '' @ path @ '' transfer''])"
    using Fields_nonempty A(2) assms(2) by (intro not_adjacent_tail) auto
  with True A(1) show ?thesis by simp
next
  case False
  note A = buildTransferCommand_Args [OF assms(1)]
  from False A(1) show ?thesis by (simp add: adjacent_append)
qed

text \<open>
  Among the arguments that \<open>buildTransferCommand\<close> appends to the fields of \<open>DOLT_SSH\<close>,
  \<open>-p\<close> is immediately followed by the port if and only if the port is not empty.
\<close>

lemma appended_port_pair_iff:
  assumes "buildTransferCommand getenv host port path user = Inr c"
  shows "adjacent ''-p'' port
           (drop (length (Fields (if getenv ''DOLT_SSH'' = [] then ''ssh''
                                  else getenv ''DOLT_SSH''))) (Args c))
         \<longleftrightarrow> port \<noteq> []"
  unfolding buildTransferCommand_Args(1) [OF assms] by simp

text \<open>
  Claim C6, as amended. For every host, port, path and user for which
  \<open>buildTransferCommand\<close> returns a command (it does unless \<open>DOLT_SSH\<close> has no field),
  the argument list is the fields of the SSH command followed by what
  \<open>buildTransferCommand\<close> appends: the adjacent pair \<open>-p\<close>, port if and only if the port is
  not empty, then the target, which is \<open>user@host\<close> when the user is not empty and the
  host otherwise, then, last, the remote command string. The whole list has \<open>-p\<close>
  immediately followed by the port if and only if the port is not empty, provided the
  last field of \<open>DOLT_SSH\<close> is not \<open>-p\<close>.
\<close>

theorem transfer_arguments:
  "Fields (if getenv ''DOLT_SSH'' = [] then ''ssh'' else getenv ''DOLT_SSH'') \<noteq> [] \<longrightarrow>
     (\<exists>c. buildTransferCommand getenv host port path user = Inr c
         \<and> Args c =
             Fields (if getenv ''DOLT_SSH'' = [] then ''ssh'' else getenv ''DOLT_SSH'')
             @ (if port \<noteq> [] then [''-p'', port] else [])
             @ [if user \<noteq> [] then user @ ''@'' @ host else host]
             @ [(if getenv ''DOLT_SSH_EXEC_PATH'' = [] then ''dolt''
                 else getenv ''DOLT_SSH_EXEC_PATH'') @ '' --data-dir '' @ path @ '' transfer'']
         \<and> (adjacent ''-p'' port
               (drop (length (Fields (if getenv ''DOLT_SSH'' = [] then ''ssh''
                                      else getenv ''DOLT_SSH''))) (Args c))
             \<longleftrightarrow> port \<noteq> [])
         \<and> (last (Fields (if getenv ''DOLT_SSH'' = [] then ''ssh'' else getenv ''DOLT_SSH''))
               \<noteq> ''-p'' \<longrightarrow>
             (adjacent ''-p'' port (Args c) \<longleftrightarrow> port \<noteq> [])))"
proof
  let ?F = "Fields (if getenv ''DOLT_SSH'' = [] then ''ssh'' else getenv ''DOLT_SSH'')"
  assume "?F \<noteq> []"
  then obtain c where c: "buildTransferCommand getenv host port path user = Inr c"
    using buildTransferCommand_returns by blast
  have a: "Args c =
             ?F @ (if port \<noteq> [] then [''-p'', port] else [])
             @ [if user \<noteq> [] then user @ ''@'' @ host else host]
             @ [(if getenv ''DOLT_SSH_EXEC_PATH'' = [] then ''dolt''
                 else getenv ''DOLT_SSH_EXEC_PATH'') @ '' --data-dir '' @ path @ '' transfer'']"
    using buildTransferCommand_Args(1) [OF c] by simp
  have b: "adjacent ''-p'' port (drop (length ?F) (Args c)) \<longleftrightarrow> port \<noteq> []"
    using c by (rule appended_port_pair_iff)
  have d: "last ?F \<noteq> ''-p'' \<longrightarrow> (adjacent ''-p'' port (Args c) \<longleftrightarrow> port \<noteq> [])"
    using port_pair_iff [OF c] by blast
  from c a b d show "\<exists>c. buildTransferCommand getenv host port path user = Inr c
         \<and> Args c =
             ?F @ (if port \<noteq> [] then [''-p'', port] else [])
             @ [if user \<noteq> [] then user @ ''@'' @ host else host]
             @ [(if getenv ''DOLT_SSH_EXEC_PATH'' = [] then ''dolt''
                 else getenv ''DOLT_SSH_EXEC_PATH'') @ '' --data-dir '' @ path @ '' transfer'']
         \<and> (adjacent ''-p'' port (drop (length ?F) (Args c)) \<longleftrightarrow> port \<noteq> [])
         \<and> (last ?F \<noteq> ''-p'' \<longrightarrow> (adjacent ''-p'' port (Args c) \<longleftrightarrow> port \<noteq> []))"
    by blast
qed

theorem transfer_arguments_witness:
  "Fields ''/usr/bin/ssh -q'' \<noteq> []
   \<and> last (Fields ''/usr/bin/ssh -q'') \<noteq> ''-p''
   \<and> (\<exists>c. buildTransferCommand example_env ''example.com'' ''2222'' ''/srv/repo'' ''alice''
            = Inr c
          \<and> Args c =
              [''/usr/bin/ssh'', ''-q''] @ [''-p'', ''2222''] @ [''alice@example.com'']
              @ [''/custom/path/to/dolt --data-dir /srv/repo transfer'']
          \<and> adjacent ''-p'' ''2222'' (Args c))"
proof -
  note T = transfer_arguments [of example_env "''example.com''" "''2222''" "''/srv/repo''"
      "''alice''"]
  have s: "(if example_env ''DOLT_SSH'' = [] then ''ssh'' else example_env ''DOLT_SSH'')
             = ''/usr/bin/ssh -q''"
    by (simp add: example_env_def)
  have d: "(if example_env ''DOLT_SSH_EXEC_PATH'' = [] then ''dolt''
            else example_env ''DOLT_SSH_EXEC_PATH'') = ''/custom/path/to/dolt''"
    by (simp add: example_env_def)
  have f: "Fields ''/usr/bin/ssh -q'' \<noteq> []"
    by (simp add: Fields_example)
  have l: "last (Fields ''/usr/bin/ssh -q'') \<noteq> ''-p''"
    by (simp add: Fields_example)
  from T [unfolded s d] f
  obtain c where
    c: "buildTransferCommand example_env ''example.com'' ''2222'' ''/srv/repo'' ''alice''
          = Inr c"
    and a: "Args c =
             Fields ''/usr/bin/ssh -q'' @ (if ''2222'' \<noteq> [] then [''-p'', ''2222''] else [])
             @ [if ''alice'' \<noteq> [] then ''alice'' @ ''@'' @ ''example.com'' else ''example.com'']
             @ [''/custom/path/to/dolt'' @ '' --data-dir '' @ ''/srv/repo'' @ '' transfer'']"
    and p: "last (Fields ''/usr/bin/ssh -q'') \<noteq> ''-p'' \<longrightarrow>
             (adjacent ''-p'' ''2222'' (Args c) \<longleftrightarrow> ''2222'' \<noteq> [])"
    by blast
  from a have a': "Args c =
              [''/usr/bin/ssh'', ''-q''] @ [''-p'', ''2222''] @ [''alice@example.com'']
              @ [''/custom/path/to/dolt --data-dir /srv/repo transfer'']"
    unfolding Fields_example by simp
  from p l have "adjacent ''-p'' ''2222'' (Args c) \<longleftrightarrow> ''2222'' \<noteq> []"
    by (rule mp)
  then have p': "adjacent ''-p'' ''2222'' (Args c)" by simp
  from c a' p' have "\<exists>c. buildTransferCommand example_env ''example.com'' ''2222''
                           ''/srv/repo'' ''alice'' = Inr c
          \<and> Args c =
              [''/usr/bin/ssh'', ''-q''] @ [''-p'', ''2222''] @ [''alice@example.com'']
              @ [''/custom/path/to/dolt --data-dir /srv/repo transfer'']
          \<and> adjacent ''-p'' ''2222'' (Args c)"
    by blast
  with f l show ?thesis by (intro conjI)
qed

text \<open>
  The claim as the specification states it, that the argument list contains the adjacent
  pair \<open>-p\<close>, port if and only if the port is not empty, fails for an SSH command that
  ends in \<open>-p\<close>:
  with \<open>DOLT_SSH\<close> set to \<open>ssh -p\<close> and host, user and port empty, the list is \<open>ssh\<close>,
  \<open>-p\<close>, the empty target, the remote command, and in it \<open>-p\<close> is immediately followed by
  the empty port.
\<close>

theorem port_pair_counterexample:
  "buildTransferCommand example_dash_p_env [] [] ''/srv/repo'' []
     = Inr \<lparr>Args = [''ssh'', ''-p'', [], ''dolt --data-dir /srv/repo transfer''],
            Process = None\<rparr>
   \<and> \<not> (adjacent ''-p'' ([] :: string)
            [''ssh'', ''-p'', [], ''dolt --data-dir /srv/repo transfer'']
          \<longleftrightarrow> ([] :: string) \<noteq> [])"
proof -
  have "adjacent ''-p'' ([] :: string)
          [''ssh'', ''-p'', [], ''dolt --data-dir /srv/repo transfer'']"
    by simp
  with buildTransferCommand_dash_p show ?thesis by simp
qed

section \<open>The error of a failed connection\<close>

lemma HasPrefix_iff: "HasPrefix s p \<longleftrightarrow> (\<exists>b. s = p @ b)"
  unfolding HasPrefix_def
  by (metis append_eq_conv_conj append_take_drop_id)

text \<open>\<open>Contains\<close> is the substring relation.\<close>

lemma Contains_iff: "Contains s sub \<longleftrightarrow> (\<exists>a b. s = a @ sub @ b)"
proof (induction s)
  case Nil
  then show ?case by auto
next
  case (Cons c cs)
  show ?case
  proof
    assume "Contains (c # cs) sub"
    then consider "HasPrefix (c # cs) sub" | "Contains cs sub" by auto
    then show "\<exists>a b. c # cs = a @ sub @ b"
    proof cases
      case 1
      then obtain b where "c # cs = sub @ b" by (auto simp: HasPrefix_iff)
      then have "c # cs = [] @ sub @ b" by simp
      then show ?thesis by blast
    next
      case 2
      with Cons.IH obtain a b where "cs = a @ sub @ b" by blast
      then have "c # cs = (c # a) @ sub @ b" by simp
      then show ?thesis by blast
    qed
  next
    assume "\<exists>a b. c # cs = a @ sub @ b"
    then obtain a b where ab: "c # cs = a @ sub @ b" by blast
    show "Contains (c # cs) sub"
    proof (cases a)
      case Nil
      with ab have "HasPrefix (c # cs) sub" by (auto simp: HasPrefix_iff)
      then show ?thesis by simp
    next
      case (Cons x a')
      with ab have "cs = a' @ sub @ b" by simp
      with Cons.IH have "Contains cs sub" by blast
      then show ?thesis by simp
    qed
  qed
qed

lemma filterSSHNoise_spec_noise:
  "filterSSHNoise_spec (''Warning: Permanently added host to known hosts.'' @ [newline]
                        @ ''   '' @ [newline]) = []"
  by (simp add: filterSSHNoise_spec_def newline_def utf8_eval substantive_def HasPrefix_def)

lemma filterSSHNoise_spec_missing:
  "filterSSHNoise_spec (''Warning: Permanently added host to known hosts.'' @ [newline]
                        @ ''  bash: dolt: no such file or directory '' @ [newline])
     = ''bash: dolt: no such file or directory''"
  by (simp add: filterSSHNoise_spec_def newline_def utf8_eval substantive_def HasPrefix_def)

lemma filterSSHNoise_spec_denied:
  "filterSSHNoise_spec (''Warning: Permanently added host to known hosts.'' @ [newline]
                        @ ''  Permission denied (publickey). '' @ [newline])
     = ''Permission denied (publickey).''"
  by (simp add: filterSSHNoise_spec_def newline_def utf8_eval substantive_def HasPrefix_def)

text \<open>A line that consists of a no-break space, U+00A0, is blank after trimming.\<close>

lemma filterSSHNoise_spec_nbsp:
  "filterSSHNoise_spec ([CHR 0xC2, CHR 0xA0] @ [newline]) = []"
  by (simp add: filterSSHNoise_spec_def newline_def utf8_eval substantive_def HasPrefix_def)

text \<open>
  A line edged with a no-break space and an ideographic space, U+3000, is trimmed of
  both.
\<close>

lemma filterSSHNoise_spec_unicode:
  "filterSSHNoise_spec ([CHR 0xC2, CHR 0xA0] @ ''Permission denied (publickey).''
                        @ [CHR 0xE3, CHR 0x80, CHR 0x80] @ [newline])
     = ''Permission denied (publickey).''"
  by (simp add: filterSSHNoise_spec_def newline_def utf8_eval substantive_def HasPrefix_def)

lemma Contains_missing:
  "Contains ''bash: dolt: no such file or directory'' ''no such file or directory''"
  by (simp add: HasPrefix_def)

lemma not_Contains_denied:
  "\<not> Contains ''Permission denied (publickey).'' ''no such file or directory''"
  "\<not> Contains ''Permission denied (publickey).'' ''failed to load database''"
  by (simp_all add: HasPrefix_def)

text \<open>
  Claim C3. For every content of the stderr buffer, path, context message and low-level
  error: \<open>sshRemoteError\<close> filters the text as the specification says (lines that are
  blank after trimming or whose trimmed form begins with \<open>Warning: Permanently added\<close>
  are dropped, the others trimmed). If the filtered text is not empty and contains
  \<open>no such file or directory\<close> or \<open>failed to load database\<close>, the error is exactly
  \<open>repository not found at <path>\<close>; if it is not empty otherwise, the error is
  \<open><context>: remote: <filtered stderr>\<close>; if it is empty, the error is the context
  message wrapping the low-level error.
\<close>

theorem sshRemoteError_triage:
  "filterSSHNoise stderr = filterSSHNoise_spec stderr
   \<and> (filterSSHNoise_spec stderr \<noteq> []
        \<and> (Contains (filterSSHNoise_spec stderr) ''no such file or directory''
           \<or> Contains (filterSSHNoise_spec stderr) ''failed to load database'')
      \<longrightarrow> sshRemoteError stderr path msg err
            = ErrorString (''repository not found at '' @ path))
   \<and> (filterSSHNoise_spec stderr \<noteq> []
        \<and> \<not> Contains (filterSSHNoise_spec stderr) ''no such file or directory''
        \<and> \<not> Contains (filterSSHNoise_spec stderr) ''failed to load database''
      \<longrightarrow> sshRemoteError stderr path msg err
            = ErrorString (msg @ '': remote: '' @ filterSSHNoise_spec stderr))
   \<and> (filterSSHNoise_spec stderr = []
      \<longrightarrow> Error (sshRemoteError stderr path msg err) = msg @ '': '' @ Error err
          \<and> Unwrap (sshRemoteError stderr path msg err) = Some err)"
proof -
  have eq: "filterSSHNoise stderr = filterSSHNoise_spec stderr"
    by (simp add: filterSSHNoise_eq filterSSHNoise_spec_def)
  show ?thesis
    unfolding sshRemoteError_def eq by (simp add: Let_def Errorf_wrap_def)
qed

theorem sshRemoteError_triage_witness:
  "sshRemoteError
      (''Warning: Permanently added host to known hosts.'' @ [newline]
       @ ''  bash: dolt: no such file or directory '' @ [newline])
      ''/srv/repo'' ''failed to create chunk store'' (ErrorString ''EOF'')
     = ErrorString ''repository not found at /srv/repo''
   \<and> sshRemoteError
      (''Warning: Permanently added host to known hosts.'' @ [newline]
       @ ''  Permission denied (publickey). '' @ [newline])
      ''/srv/repo'' ''failed to create chunk store'' (ErrorString ''EOF'')
     = ErrorString ''failed to create chunk store: remote: Permission denied (publickey).''
   \<and> Error (sshRemoteError
      (''Warning: Permanently added host to known hosts.'' @ [newline]
       @ ''   '' @ [newline])
      ''/srv/repo'' ''failed to create chunk store'' (ErrorString ''EOF''))
     = ''failed to create chunk store: EOF''
   \<and> Unwrap (sshRemoteError
      (''Warning: Permanently added host to known hosts.'' @ [newline]
       @ ''   '' @ [newline])
      ''/srv/repo'' ''failed to create chunk store'' (ErrorString ''EOF''))
     = Some (ErrorString ''EOF'')
   \<and> Unwrap (sshRemoteError ([CHR 0xC2, CHR 0xA0] @ [newline])
      ''/srv/repo'' ''failed to create chunk store'' (ErrorString ''EOF''))
     = Some (ErrorString ''EOF'')"
proof -
  let ?s4 = "[CHR 0xC2, CHR 0xA0] @ [newline]"
  let ?s1 = "''Warning: Permanently added host to known hosts.'' @ [newline]
              @ ''  bash: dolt: no such file or directory '' @ [newline]"
  let ?s2 = "''Warning: Permanently added host to known hosts.'' @ [newline]
              @ ''  Permission denied (publickey). '' @ [newline]"
  let ?s3 = "''Warning: Permanently added host to known hosts.'' @ [newline]
              @ ''   '' @ [newline]"
  note T = sshRemoteError_triage [where path = "''/srv/repo''"
      and msg = "''failed to create chunk store''" and err = "ErrorString ''EOF''"]
  have p1: "filterSSHNoise_spec ?s1 \<noteq> []
        \<and> (Contains (filterSSHNoise_spec ?s1) ''no such file or directory''
           \<or> Contains (filterSSHNoise_spec ?s1) ''failed to load database'')"
    unfolding filterSSHNoise_spec_missing using Contains_missing by simp
  have p2: "filterSSHNoise_spec ?s2 \<noteq> []
        \<and> \<not> Contains (filterSSHNoise_spec ?s2) ''no such file or directory''
        \<and> \<not> Contains (filterSSHNoise_spec ?s2) ''failed to load database''"
    unfolding filterSSHNoise_spec_denied using not_Contains_denied by simp
  have p3: "filterSSHNoise_spec ?s3 = []"
    by (rule filterSSHNoise_spec_noise)
  have r1: "sshRemoteError ?s1 ''/srv/repo'' ''failed to create chunk store''
              (ErrorString ''EOF'')
              = ErrorString (''repository not found at '' @ ''/srv/repo'')"
    using T [of ?s1, THEN conjunct2, THEN conjunct1] p1 by (rule mp)
  have r2: "sshRemoteError ?s2 ''/srv/repo'' ''failed to create chunk store''
              (ErrorString ''EOF'')
              = ErrorString (''failed to create chunk store'' @ '': remote: ''
                             @ filterSSHNoise_spec ?s2)"
    using T [of ?s2, THEN conjunct2, THEN conjunct2, THEN conjunct1] p2 by (rule mp)
  have r3: "Error (sshRemoteError ?s3 ''/srv/repo'' ''failed to create chunk store''
              (ErrorString ''EOF''))
              = ''failed to create chunk store'' @ '': '' @ Error (ErrorString ''EOF'')
            \<and> Unwrap (sshRemoteError ?s3 ''/srv/repo'' ''failed to create chunk store''
              (ErrorString ''EOF''))
              = Some (ErrorString ''EOF'')"
    using T [of ?s3, THEN conjunct2, THEN conjunct2, THEN conjunct2] p3 by (rule mp)
  have p4: "filterSSHNoise_spec ?s4 = []"
    by (rule filterSSHNoise_spec_nbsp)
  have r4: "Error (sshRemoteError ?s4 ''/srv/repo'' ''failed to create chunk store''
              (ErrorString ''EOF''))
              = ''failed to create chunk store'' @ '': '' @ Error (ErrorString ''EOF'')
            \<and> Unwrap (sshRemoteError ?s4 ''/srv/repo'' ''failed to create chunk store''
              (ErrorString ''EOF''))
              = Some (ErrorString ''EOF'')"
    using T [of ?s4, THEN conjunct2, THEN conjunct2, THEN conjunct2] p4 by (rule mp)
  from r1 r2 [unfolded filterSSHNoise_spec_denied] r3 r4 show ?thesis by simp
qed

theorem filterSSHNoise_idempotent_witness:
  "filterSSHNoise (filterSSHNoise
      (''Warning: Permanently added host to known hosts.'' @ [newline]
       @ ''  Permission denied (publickey). '' @ [newline]))
     = ''Permission denied (publickey).''
   \<and> filterSSHNoise (filterSSHNoise
      ([CHR 0xC2, CHR 0xA0] @ ''Permission denied (publickey).''
       @ [CHR 0xE3, CHR 0x80, CHR 0x80] @ [newline]))
     = ''Permission denied (publickey).''"
proof -
  let ?s = "''Warning: Permanently added host to known hosts.'' @ [newline]
            @ ''  Permission denied (publickey). '' @ [newline]"
  let ?u = "[CHR 0xC2, CHR 0xA0] @ ''Permission denied (publickey).''
            @ [CHR 0xE3, CHR 0x80, CHR 0x80] @ [newline]"
  have e: "filterSSHNoise ?s = ''Permission denied (publickey).''"
    unfolding filterSSHNoise_eq filterSSHNoise_spec_def [symmetric]
    by (rule filterSSHNoise_spec_denied)
  have "filterSSHNoise (filterSSHNoise ?s) = filterSSHNoise ?s"
    by (rule filterSSHNoise_idempotent)
  also have "\<dots> = ''Permission denied (publickey).''"
    by (rule e)
  finally have 1: "filterSSHNoise (filterSSHNoise ?s) = ''Permission denied (publickey).''" .
  have e': "filterSSHNoise ?u = ''Permission denied (publickey).''"
    unfolding filterSSHNoise_eq filterSSHNoise_spec_def [symmetric]
    by (rule filterSSHNoise_spec_unicode)
  have "filterSSHNoise (filterSSHNoise ?u) = filterSSHNoise ?u"
    by (rule filterSSHNoise_idempotent)
  also have "\<dots> = ''Permission denied (publickey).''"
    by (rule e')
  finally have 2: "filterSSHNoise (filterSSHNoise ?u) = ''Permission denied (publickey).''" .
  from 1 2 show ?thesis by (rule conjI)
qed

section \<open>Teardown\<close>

lemma CreateDB_success_conn:
  assumes "CreateDB getenv oc urlObj = (evs, Inr cs)"
  shows "\<exists>c. conn cs = \<lparr>cmd = Some c, session = Some Session, grpcConn = Some ClientConn,
                          stdin = Some WriteCloser, procCancel = Some CancelCauseFunc\<rparr>
             \<and> Process c = Some Running"
  using assms
  by (auto simp: CreateDB_def Let_def split: prod.splits sum.splits option.splits)

lemma sshChunkStore_Close_full:
  assumes "conn cs = \<lparr>cmd = Some c, session = Some Session, grpcConn = Some ClientConn,
                       stdin = Some WriteCloser, procCancel = Some CancelCauseFunc\<rparr>"
    and "Process c = Some Running"
  shows "fst (sshChunkStore_Close cs) = DoltChunkStoreClose # teardown_order"
  using assms
  by (simp add: sshChunkStore_Close_def sshConnection_Close_def teardown_order_def Let_def
      split: prod.splits)

text \<open>
  Whatever fields of a connection are nil, the steps that \<open>Close\<close> performs keep the
  order of the full teardown.
\<close>

lemma sshConnection_Close_subseq: "subseq (fst (sshConnection_Close k)) teardown_order"
  by (cases "cmd k") (simp_all add: sshConnection_Close_def teardown_order_def)

lemma CreateDB_example:
  "CreateDB example_env example_outcomes example_url
     = ([CmdStart (example_cmd\<lparr>Process := Some Running\<rparr>),
         RegisterCustomTransport ''transfer.local''],
        Inr \<lparr>store = \<lparr>Close_result = None\<rparr>,
             conn = \<lparr>cmd = Some (example_cmd\<lparr>Process := Some Running\<rparr>),
                     session = Some Session, grpcConn = Some ClientConn,
                     stdin = Some WriteCloser, procCancel = Some CancelCauseFunc\<rparr>\<rparr>)"
  by (simp add: CreateDB_def CreateDB_parse_example buildTransferCommand_example
      example_outcomes_def Let_def)

text \<open>
  Claim C7. Closing the wrapped chunk store that \<open>CreateDB\<close> returns closes the embedded
  chunk store and then tears the connection down in exactly this order: unregister the
  \<open>transfer.local\<close> transport, cancel the session context with cause
  \<open>connection closed\<close>, close the mux session, close the gRPC connection, close the stdin
  pipe of the subprocess, kill the subprocess, wait for it. So the transport is
  unregistered before the mux session is closed, and the mux session is closed before the
  subprocess is killed.
\<close>

theorem Close_teardown_order:
  assumes "CreateDB getenv oc urlObj = (evs, Inr cs)"
  shows "fst (sshChunkStore_Close cs) =
           [DoltChunkStoreClose,
            UnregisterCustomTransport ''transfer.local'',
            ProcCancel ''connection closed'',
            SessionClose, GrpcConnClose, StdinClose, ProcessKill, CmdWait]"
proof -
  from CreateDB_success_conn [OF assms] obtain c where
    "conn cs = \<lparr>cmd = Some c, session = Some Session, grpcConn = Some ClientConn,
                 stdin = Some WriteCloser, procCancel = Some CancelCauseFunc\<rparr>"
    and "Process c = Some Running" by blast
  then have "fst (sshChunkStore_Close cs) = DoltChunkStoreClose # teardown_order"
    by (rule sshChunkStore_Close_full)
  then show ?thesis by (simp add: teardown_order_def)
qed

theorem Close_teardown_order_witness:
  "fst (sshChunkStore_Close
          \<lparr>store = \<lparr>Close_result = None\<rparr>,
           conn = \<lparr>cmd = Some (example_cmd\<lparr>Process := Some Running\<rparr>),
                   session = Some Session, grpcConn = Some ClientConn,
                   stdin = Some WriteCloser, procCancel = Some CancelCauseFunc\<rparr>\<rparr>)
     = [DoltChunkStoreClose,
        UnregisterCustomTransport ''transfer.local'',
        ProcCancel ''connection closed'',
        SessionClose, GrpcConnClose, StdinClose, ProcessKill, CmdWait]
   \<and> snd (CreateDB example_env example_outcomes example_url)
     = Inr \<lparr>store = \<lparr>Close_result = None\<rparr>,
            conn = \<lparr>cmd = Some (example_cmd\<lparr>Process := Some Running\<rparr>),
                    session = Some Session, grpcConn = Some ClientConn,
                    stdin = Some WriteCloser, procCancel = Some CancelCauseFunc\<rparr>\<rparr>"
proof -
  have "snd (CreateDB example_env example_outcomes example_url)
     = Inr \<lparr>store = \<lparr>Close_result = None\<rparr>,
            conn = \<lparr>cmd = Some (example_cmd\<lparr>Process := Some Running\<rparr>),
                    session = Some Session, grpcConn = Some ClientConn,
                    stdin = Some WriteCloser, procCancel = Some CancelCauseFunc\<rparr>\<rparr>"
    by (simp only: CreateDB_example snd_conv)
  with Close_teardown_order [OF CreateDB_example] show ?thesis by (rule conjI)
qed

section \<open>\<open>PrepareDB\<close>\<close>

text \<open>
  Claim C10. For every context, binary format, URL and parameter map, \<open>PrepareDB\<close>
  returns an error, the one that says that the ssh scheme does not support it, and does
  nothing else.
\<close>

theorem PrepareDB_fails:
  "fst (PrepareDB ctx nbf urlObj params) = []
   \<and> (\<exists>err. snd (PrepareDB ctx nbf urlObj params) = Some err
          \<and> Error err = ''ssh scheme does not support PrepareDB'')"
  by (simp add: PrepareDB_def)

theorem PrepareDB_fails_witness:
  "fst (PrepareDB () () example_url (Map.empty :: string \<rightharpoonup> string)) = []
   \<and> snd (PrepareDB () () example_url (Map.empty :: string \<rightharpoonup> string)) \<noteq> None"
  using PrepareDB_fails [of "()" "()" example_url "Map.empty :: string \<rightharpoonup> string"]
  by auto

section \<open>The file-transfer handler\<close>

text \<open>
  The checks of \<open>handleUpload\<close>, one by one: each lemma assumes that the checks before
  it have passed.
\<close>

lemma handleUpload_num_chunks_required:
  assumes "\<not> LastIndex path (CHR ''/'') < 0"
    and "Get (Query r) ''num_chunks'' = []"
  shows "handleUpload fh r path
           = ([], http_Error ''Bad Request: num_chunks required'' StatusBadRequest)"
  using assms by (simp add: handleUpload_def Let_def)

lemma handleUpload_num_chunks_invalid:
  assumes "\<not> LastIndex path (CHR ''/'') < 0"
    and "Get (Query r) ''num_chunks'' \<noteq> []"
    and "Atoi (Get (Query r) ''num_chunks'') = None"
  shows "handleUpload fh r path
           = ([], http_Error ''Bad Request: invalid num_chunks'' StatusBadRequest)"
  using assms by (simp add: handleUpload_def Let_def)

lemma handleUpload_content_length_required:
  assumes "\<not> LastIndex path (CHR ''/'') < 0"
    and "Get (Query r) ''num_chunks'' \<noteq> []"
    and "Atoi (Get (Query r) ''num_chunks'') = Some nc"
    and "Get (Query r) ''content_length'' = []"
  shows "handleUpload fh r path
           = ([], http_Error ''Bad Request: content_length required'' StatusBadRequest)"
  using assms by (simp add: handleUpload_def Let_def)

lemma handleUpload_content_length_invalid:
  assumes "\<not> LastIndex path (CHR ''/'') < 0"
    and "Get (Query r) ''num_chunks'' \<noteq> []"
    and "Atoi (Get (Query r) ''num_chunks'') = Some nc"
    and "Get (Query r) ''content_length'' \<noteq> []"
    and "ParseUint (Get (Query r) ''content_length'') = None"
  shows "handleUpload fh r path
           = ([], http_Error ''Bad Request: invalid content_length'' StatusBadRequest)"
  using assms by (simp add: handleUpload_def Let_def)

lemma handleUpload_content_hash_required:
  assumes "\<not> LastIndex path (CHR ''/'') < 0"
    and "Get (Query r) ''num_chunks'' \<noteq> []"
    and "Atoi (Get (Query r) ''num_chunks'') = Some nc"
    and "Get (Query r) ''content_length'' \<noteq> []"
    and "ParseUint (Get (Query r) ''content_length'') = Some cl"
    and "Get (Query r) ''content_hash'' = []"
  shows "handleUpload fh r path
           = ([], http_Error ''Bad Request: content_hash required'' StatusBadRequest)"
  using assms by (simp add: handleUpload_def Let_def)

lemma handleUpload_content_hash_invalid:
  assumes "\<not> LastIndex path (CHR ''/'') < 0"
    and "Get (Query r) ''num_chunks'' \<noteq> []"
    and "Atoi (Get (Query r) ''num_chunks'') = Some nc"
    and "Get (Query r) ''content_length'' \<noteq> []"
    and "ParseUint (Get (Query r) ''content_length'') = Some cl"
    and "Get (Query r) ''content_hash'' \<noteq> []"
    and "RawURLEncoding_DecodeString (Get (Query r) ''content_hash'') = None"
  shows "handleUpload fh r path
           = ([], http_Error ''Bad Request: invalid content_hash'' StatusBadRequest)"
  using assms by (simp add: handleUpload_def Let_def)

lemma handleUpload_split_offset_invalid:
  assumes "\<not> LastIndex path (CHR ''/'') < 0"
    and "Get (Query r) ''num_chunks'' \<noteq> []"
    and "Atoi (Get (Query r) ''num_chunks'') = Some nc"
    and "Get (Query r) ''content_length'' \<noteq> []"
    and "ParseUint (Get (Query r) ''content_length'') = Some cl"
    and "Get (Query r) ''content_hash'' \<noteq> []"
    and "RawURLEncoding_DecodeString (Get (Query r) ''content_hash'') = Some ch"
    and "Get (Query r) ''split_offset'' \<noteq> []"
    and "ParseUint (Get (Query r) ''split_offset'') = None"
  shows "handleUpload fh r path
           = ([], http_Error ''Bad Request: invalid split_offset'' StatusBadRequest)"
  using assms by (simp add: handleUpload_def Let_def)

text \<open>After the checks, the cache is asked for the chunk store.\<close>

lemma handleUpload_checked:
  assumes "\<not> LastIndex path (CHR ''/'') < 0"
    and "Get (Query r) ''num_chunks'' \<noteq> []"
    and "Atoi (Get (Query r) ''num_chunks'') = Some nc"
    and "Get (Query r) ''content_length'' \<noteq> []"
    and "ParseUint (Get (Query r) ''content_length'') = Some cl"
    and "Get (Query r) ''content_hash'' \<noteq> []"
    and "RawURLEncoding_DecodeString (Get (Query r) ''content_hash'') = Some ch"
    and "Get (Query r) ''split_offset'' = []
         \<or> ParseUint (Get (Query r) ''split_offset'') \<noteq> None"
  shows "handleUpload fh r path =
           (case dbCache fh (take (nat (LastIndex path (CHR ''/''))) path) [] of
              Inl err \<Rightarrow>
                ([DBCacheGet (take (nat (LastIndex path (CHR ''/''))) path)],
                 http_Error ''Internal Server Error'' StatusInternalServerError)
            | Inr cs \<Rightarrow>
                (case WriteTableFile cs (parsed_call r path) of
                   Some err \<Rightarrow>
                     ([DBCacheGet (take (nat (LastIndex path (CHR ''/''))) path),
                       WriteTableFileCall (parsed_call r path),
                       LogError ''failed to write table file''],
                      http_Error (Error err) StatusInternalServerError)
                 | None \<Rightarrow>
                     ([DBCacheGet (take (nat (LastIndex path (CHR ''/''))) path),
                       WriteTableFileCall (parsed_call r path)],
                      WriteHeader StatusOK)))"
proof (cases "Get (Query r) ''split_offset'' = []")
  case True
  with assms(1-7) show ?thesis
    by (simp add: handleUpload_def Let_def parsed_call_def split: sum.splits option.splits)
next
  case False
  with assms(8) obtain so where "ParseUint (Get (Query r) ''split_offset'') = Some so"
    by auto
  with False assms(1-7) show ?thesis
    by (simp add: handleUpload_def Let_def parsed_call_def split: sum.splits option.splits)
qed

text \<open>A request with a parameter out of order is rejected before anything else happens.\<close>

lemma handleUpload_rejects:
  assumes "CHR ''/'' \<in> set path" and "\<not> params_ok r"
  shows "\<exists>reason. handleUpload fh r path = ([], http_Error reason StatusBadRequest)
           \<and> names_offending r reason"
proof -
  note i = LastIndex_nonneg [OF assms(1)]
  show ?thesis
  proof (cases "Get (Query r) ''num_chunks'' = []")
    case True
    with i handleUpload_num_chunks_required show ?thesis
      by (simp add: names_offending_def)
  next
    case nc: False
    show ?thesis
    proof (cases "Atoi (Get (Query r) ''num_chunks'')")
      case None
      with i nc handleUpload_num_chunks_invalid show ?thesis
        by (simp add: names_offending_def)
    next
      case nc': (Some n)
      show ?thesis
      proof (cases "Get (Query r) ''content_length'' = []")
        case True
        with i nc nc' handleUpload_content_length_required show ?thesis
          by (simp add: names_offending_def)
      next
        case cl: False
        show ?thesis
        proof (cases "ParseUint (Get (Query r) ''content_length'')")
          case None
          with i nc nc' cl handleUpload_content_length_invalid show ?thesis
            by (simp add: names_offending_def)
        next
          case cl': (Some l)
          show ?thesis
          proof (cases "Get (Query r) ''content_hash'' = []")
            case True
            with i nc nc' cl cl' handleUpload_content_hash_required show ?thesis
              by (simp add: names_offending_def)
          next
            case ch: False
            show ?thesis
            proof (cases "RawURLEncoding_DecodeString (Get (Query r) ''content_hash'')")
              case None
              with i nc nc' cl cl' ch handleUpload_content_hash_invalid show ?thesis
                by (simp add: names_offending_def)
            next
              case ch': (Some h)
              from assms(2) nc nc' cl cl' ch ch'
              have so: "Get (Query r) ''split_offset'' \<noteq> []"
                and so': "ParseUint (Get (Query r) ''split_offset'') = None"
                by (simp_all add: params_ok_def)
              have "handleUpload fh r path
                      = ([], http_Error ''Bad Request: invalid split_offset'' StatusBadRequest)"
                using i nc nc' cl cl' ch ch' so so'
                by (rule handleUpload_split_offset_invalid)
              with so so' show ?thesis
                by (simp add: names_offending_def)
            qed
          qed
        qed
      qed
    qed
  qed
qed

lemma handleUpload_accepts:
  assumes "CHR ''/'' \<in> set path" and "params_ok r"
    and "dbCache fh (take (nat (LastIndex path (CHR ''/''))) path) [] = Inr cs"
  shows "handleUpload fh r path =
           (case WriteTableFile cs (parsed_call r path) of
              Some err \<Rightarrow>
                ([DBCacheGet (take (nat (LastIndex path (CHR ''/''))) path),
                  WriteTableFileCall (parsed_call r path),
                  LogError ''failed to write table file''],
                 http_Error (Error err) StatusInternalServerError)
            | None \<Rightarrow>
                ([DBCacheGet (take (nat (LastIndex path (CHR ''/''))) path),
                  WriteTableFileCall (parsed_call r path)],
                 WriteHeader StatusOK))"
proof -
  from assms(2) obtain nc cl ch where
    "Get (Query r) ''num_chunks'' \<noteq> []"
    "Atoi (Get (Query r) ''num_chunks'') = Some nc"
    "Get (Query r) ''content_length'' \<noteq> []"
    "ParseUint (Get (Query r) ''content_length'') = Some cl"
    "Get (Query r) ''content_hash'' \<noteq> []"
    "RawURLEncoding_DecodeString (Get (Query r) ''content_hash'') = Some ch"
    "Get (Query r) ''split_offset'' = []
       \<or> ParseUint (Get (Query r) ''split_offset'') \<noteq> None"
    unfolding params_ok_def by blast
  with LastIndex_nonneg [OF assms(1)]
  have "handleUpload fh r path =
           (case dbCache fh (take (nat (LastIndex path (CHR ''/''))) path) [] of
              Inl err \<Rightarrow>
                ([DBCacheGet (take (nat (LastIndex path (CHR ''/''))) path)],
                 http_Error ''Internal Server Error'' StatusInternalServerError)
            | Inr cs \<Rightarrow>
                (case WriteTableFile cs (parsed_call r path) of
                   Some err \<Rightarrow>
                     ([DBCacheGet (take (nat (LastIndex path (CHR ''/''))) path),
                       WriteTableFileCall (parsed_call r path),
                       LogError ''failed to write table file''],
                      http_Error (Error err) StatusInternalServerError)
                 | None \<Rightarrow>
                     ([DBCacheGet (take (nat (LastIndex path (CHR ''/''))) path),
                       WriteTableFileCall (parsed_call r path)],
                      WriteHeader StatusOK)))"
    by (rule handleUpload_checked)
  then show ?thesis by (simp add: assms(3))
qed

text \<open>
  With a cache whose \<open>Get\<close> fails, which the cache of this command never does, the
  request is answered with status 500 and the chunk store is not called.
\<close>

lemma handleUpload_cache_error:
  assumes "CHR ''/'' \<in> set path" and "params_ok r"
    and "dbCache fh (take (nat (LastIndex path (CHR ''/''))) path) [] = Inl e"
  shows "handleUpload fh r path =
           ([DBCacheGet (take (nat (LastIndex path (CHR ''/''))) path)],
            http_Error ''Internal Server Error'' StatusInternalServerError)"
proof -
  from assms(2) obtain nc cl ch where
    "Get (Query r) ''num_chunks'' \<noteq> []"
    "Atoi (Get (Query r) ''num_chunks'') = Some nc"
    "Get (Query r) ''content_length'' \<noteq> []"
    "ParseUint (Get (Query r) ''content_length'') = Some cl"
    "Get (Query r) ''content_hash'' \<noteq> []"
    "RawURLEncoding_DecodeString (Get (Query r) ''content_hash'') = Some ch"
    "Get (Query r) ''split_offset'' = []
       \<or> ParseUint (Get (Query r) ''split_offset'') \<noteq> None"
    unfolding params_ok_def by blast
  with LastIndex_nonneg [OF assms(1)]
  have "handleUpload fh r path =
           (case dbCache fh (take (nat (LastIndex path (CHR ''/''))) path) [] of
              Inl err \<Rightarrow>
                ([DBCacheGet (take (nat (LastIndex path (CHR ''/''))) path)],
                 http_Error ''Internal Server Error'' StatusInternalServerError)
            | Inr cs \<Rightarrow>
                (case WriteTableFile cs (parsed_call r path) of
                   Some err \<Rightarrow>
                     ([DBCacheGet (take (nat (LastIndex path (CHR ''/''))) path),
                       WriteTableFileCall (parsed_call r path),
                       LogError ''failed to write table file''],
                      http_Error (Error err) StatusInternalServerError)
                 | None \<Rightarrow>
                     ([DBCacheGet (take (nat (LastIndex path (CHR ''/''))) path),
                       WriteTableFileCall (parsed_call r path)],
                      WriteHeader StatusOK)))"
    by (rule handleUpload_checked)
  then show ?thesis by (simp add: assms(3))
qed

text \<open>A path without a slash is rejected, whatever the parameters.\<close>

lemma handleUpload_no_slash:
  "CHR ''/'' \<notin> set path \<Longrightarrow>
     handleUpload fh r path = ([], http_Error ''Bad Request'' StatusBadRequest)"
  by (simp add: handleUpload_def LastIndex_absent [symmetric])

lemma ServeHTTP_upload:
  "Method r = MethodPost \<or> Method r = MethodPut \<Longrightarrow>
     ServeHTTP fh r = handleUpload fh r (TrimLeft (URL_Path r) ''/'')"
  by (auto simp: ServeHTTP_def Let_def MethodGet_def MethodPost_def MethodPut_def)

lemma DecodeString_example: "RawURLEncoding_DecodeString ''aGVsbG8'' = Some ''hello''"
  by (simp add: RawURLEncoding_DecodeString_def base64url_digit_def Let_def char_of_def bit_Suc_0_iff)

lemma Atoi_example: "Atoi ''3'' = Some 3"
  by (simp add: Atoi_def isDigit_def digits_value_def)

lemma ParseUint_example: "ParseUint ''5'' = Some 5"
  by (simp add: ParseUint_def isDigit_def digits_value_def)

lemma ParseUint_bad_example: "ParseUint ''five'' = None"
  by (simp add: ParseUint_def isDigit_def digits_value_def)

lemma Get_example: "Get (Query example_upload) ''num_chunks'' = ''3''"
  "Get (Query example_upload) ''content_length'' = ''5''"
  "Get (Query example_upload) ''content_hash'' = ''aGVsbG8''"
  "Get (Query example_upload) ''split_offset'' = []"
  by (simp_all add: example_upload_def Get_def)

lemma Get_bad_example: "Get (Query example_bad_upload) ''num_chunks'' = ''3''"
  "Get (Query example_bad_upload) ''content_length'' = ''five''"
  by (simp_all add: example_bad_upload_def Get_def)

lemma params_ok_example: "params_ok example_upload"
  unfolding params_ok_def Get_example DecodeString_example Atoi_example ParseUint_example by simp

lemma params_not_ok_example: "\<not> params_ok example_bad_upload"
  unfolding params_ok_def Get_bad_example ParseUint_bad_example by simp

lemma LastIndex_example: "LastIndex ''srv/repo/tablefile01'' (CHR ''/'') = 8"
  by (simp add: Let_def)

lemma parsed_call_example:
  "parsed_call example_upload ''srv/repo/tablefile01''
     = \<lparr>fileId = ''tablefile01'', splitOffset = 0, numChunks = 3, contentHash = ''hello'',
        body = ''hello'', contentLength = 5\<rparr>"
  unfolding parsed_call_def Get_example DecodeString_example Atoi_example ParseUint_example LastIndex_example by (simp add: example_upload_def)

lemma Get_short_example: "Get (Query example_short_upload) ''num_chunks'' = ''3''"
  "Get (Query example_short_upload) ''content_length'' = ''5''"
  "Get (Query example_short_upload) ''content_hash'' = ''aGVsbG8''"
  "Get (Query example_short_upload) ''split_offset'' = []"
  by (simp_all add: example_short_upload_def Get_def)

lemma params_ok_short_example: "params_ok example_short_upload"
  unfolding params_ok_def Get_short_example DecodeString_example Atoi_example ParseUint_example
  by simp

lemma TrimLeft_example: "TrimLeft ''/srv/repo/tablefile01'' ''/'' = ''srv/repo/tablefile01''"
  by (simp add: TrimLeft_def)

text \<open>The cache of the handler that \<open>Exec\<close> builds returns the chunk store, always.\<close>

lemma singleton_dbCache:
  "dbCache (newTransferFileHandler (singletonDBCache_Get cs) filesys) p nbf = Inr cs"
  by (simp add: newTransferFileHandler_def singletonDBCache_Get_def)

text \<open>
  Claim C2, as amended. For every POST or PUT request to the handler whose path, after
  \<open>ServeHTTP\<close> has removed its leading slashes, still contains a slash: if one of
  \<open>num_chunks\<close>, \<open>content_length\<close>, \<open>content_hash\<close> is missing or does not parse, or
  \<open>split_offset\<close> is present and does not parse, the response is 400 with a reason that
  names an offending parameter, and nothing else happens: \<open>WriteTableFile\<close> is not called.
  Otherwise the handler asks its cache for the chunk store. If the cache returns an
  error, the response is 500 and \<open>WriteTableFile\<close> is not called. If it returns the chunk
  store, which the cache of the transfer command always does, \<open>WriteTableFile\<close> is called
  exactly once, with the file name that follows the last slash, the parsed \<open>num_chunks\<close>,
  the decoded \<open>content_hash\<close>, \<open>split_offset\<close> (0 when absent) and the body with the
  declared \<open>content_length\<close>, unchanged; the response is 500 with the text of the error
  if the call fails and 200 if it succeeds.
\<close>

theorem ServeHTTP_validates_then_writes:
  assumes "Method r = MethodPost \<or> Method r = MethodPut"
    and "CHR ''/'' \<in> set (TrimLeft (URL_Path r) ''/'')"
  shows "(\<not> params_ok r \<longrightarrow>
            (\<exists>reason. ServeHTTP fh r = ([], http_Error reason 400)
                       \<and> names_offending r reason))
       \<and> (params_ok r \<longrightarrow>
            (\<forall>cs. dbCache fh
                     (take (nat (LastIndex (TrimLeft (URL_Path r) ''/'') (CHR ''/'')))
                        (TrimLeft (URL_Path r) ''/'')) [] = Inr cs \<longrightarrow>
                 write_calls (fst (ServeHTTP fh r))
                   = [parsed_call r (TrimLeft (URL_Path r) ''/'')]
                 \<and> snd (ServeHTTP fh r)
                   = (case WriteTableFile cs (parsed_call r (TrimLeft (URL_Path r) ''/'')) of
                        Some err \<Rightarrow> http_Error (Error err) 500
                      | None \<Rightarrow> WriteHeader 200))
          \<and> (\<forall>e. dbCache fh
                     (take (nat (LastIndex (TrimLeft (URL_Path r) ''/'') (CHR ''/'')))
                        (TrimLeft (URL_Path r) ''/'')) [] = Inl e \<longrightarrow>
                 write_calls (fst (ServeHTTP fh r)) = []
                 \<and> snd (ServeHTTP fh r) = http_Error ''Internal Server Error'' 500))
       \<and> (\<forall>cs filesys p nbf.
            dbCache (newTransferFileHandler (singletonDBCache_Get cs) filesys) p nbf = Inr cs)"
proof (intro conjI impI allI)
  let ?path = "TrimLeft (URL_Path r) ''/''"
  assume bad: "\<not> params_ok r"
  from handleUpload_rejects [OF assms(2) bad, of fh] obtain reason where
    h: "handleUpload fh r ?path = ([], http_Error reason StatusBadRequest)"
    and n: "names_offending r reason" by blast
  from h n show "\<exists>reason. ServeHTTP fh r = ([], http_Error reason 400)
                          \<and> names_offending r reason"
    unfolding ServeHTTP_upload [OF assms(1)] by (simp add: StatusBadRequest_def)
next
  let ?path = "TrimLeft (URL_Path r) ''/''"
  fix cs
  assume ok: "params_ok r"
    and g: "dbCache fh (take (nat (LastIndex ?path (CHR ''/''))) ?path) [] = Inr cs"
  note h = handleUpload_accepts [OF assms(2) ok g]
  show "write_calls (fst (ServeHTTP fh r)) = [parsed_call r ?path]"
    unfolding ServeHTTP_upload [OF assms(1)] h by (simp split: option.splits)
  show "snd (ServeHTTP fh r)
          = (case WriteTableFile cs (parsed_call r ?path) of
               Some err \<Rightarrow> http_Error (Error err) 500
             | None \<Rightarrow> WriteHeader 200)"
    unfolding ServeHTTP_upload [OF assms(1)] h
    by (simp add: StatusInternalServerError_def StatusOK_def split: option.splits)
next
  let ?path = "TrimLeft (URL_Path r) ''/''"
  fix e
  assume ok: "params_ok r"
    and g: "dbCache fh (take (nat (LastIndex ?path (CHR ''/''))) ?path) [] = Inl e"
  note h = handleUpload_cache_error [OF assms(2) ok g]
  show "write_calls (fst (ServeHTTP fh r)) = []"
    unfolding ServeHTTP_upload [OF assms(1)] h by simp
  show "snd (ServeHTTP fh r) = http_Error ''Internal Server Error'' 500"
    unfolding ServeHTTP_upload [OF assms(1)] h
    by (simp add: StatusInternalServerError_def)
next
  fix cs :: RemoteSrvStore and filesys p nbf
  show "dbCache (newTransferFileHandler (singletonDBCache_Get cs) filesys) p nbf = Inr cs"
    by (rule singleton_dbCache)
qed

theorem ServeHTTP_validates_then_writes_witness:
  "Method example_upload = MethodPost
   \<and> CHR ''/'' \<in> set (TrimLeft (URL_Path example_upload) ''/'')
   \<and> params_ok example_upload
   \<and> write_calls (fst (ServeHTTP example_handler example_upload))
     = [\<lparr>fileId = ''tablefile01'', splitOffset = 0, numChunks = 3, contentHash = ''hello'',
         body = ''hello'', contentLength = 5\<rparr>]
   \<and> snd (ServeHTTP example_handler example_upload) = WriteHeader 200
   \<and> \<not> params_ok example_bad_upload
   \<and> fst (ServeHTTP example_handler example_bad_upload) = []
   \<and> status (snd (ServeHTTP example_handler example_bad_upload)) = Some 400
   \<and> write_calls (fst (ServeHTTP example_failing_cache_handler example_upload)) = []
   \<and> snd (ServeHTTP example_failing_cache_handler example_upload)
     = http_Error ''Internal Server Error'' 500"
proof -
  have m: "Method example_upload = MethodPost \<or> Method example_upload = MethodPut"
    and m': "Method example_bad_upload = MethodPost \<or> Method example_bad_upload = MethodPut"
    by (simp_all add: example_upload_def example_bad_upload_def MethodPost_def)
  have m0: "Method example_upload = MethodPost"
    by (simp add: example_upload_def MethodPost_def)
  have t: "TrimLeft (URL_Path example_upload) ''/'' = ''srv/repo/tablefile01''"
    and t': "TrimLeft (URL_Path example_bad_upload) ''/'' = ''srv/repo/tablefile01''"
    by (simp_all add: example_upload_def example_bad_upload_def TrimLeft_example)
  have s: "CHR ''/'' \<in> set (TrimLeft (URL_Path example_upload) ''/'')"
    and s': "CHR ''/'' \<in> set (TrimLeft (URL_Path example_bad_upload) ''/'')"
    unfolding t t' by simp_all
  have g: "dbCache example_handler
             (take (nat (LastIndex (TrimLeft (URL_Path example_upload) ''/'') (CHR ''/'')))
                (TrimLeft (URL_Path example_upload) ''/'')) [] = Inr example_store"
    unfolding example_handler_def by (rule singleton_dbCache)
  note T = ServeHTTP_validates_then_writes [OF m s, of example_handler]
  from T params_ok_example g
  have ok: "write_calls (fst (ServeHTTP example_handler example_upload))
              = [parsed_call example_upload (TrimLeft (URL_Path example_upload) ''/'')]
            \<and> snd (ServeHTTP example_handler example_upload)
              = (case WriteTableFile example_store
                        (parsed_call example_upload
                           (TrimLeft (URL_Path example_upload) ''/'')) of
                   Some err \<Rightarrow> http_Error (Error err) 500
                 | None \<Rightarrow> WriteHeader 200)"
    by blast
  note T' = ServeHTTP_validates_then_writes [OF m' s', of example_handler]
  from T' params_not_ok_example
  obtain reason where
    bad: "ServeHTTP example_handler example_bad_upload = ([], http_Error reason 400)"
    by blast
  from bad have b0: "fst (ServeHTTP example_handler example_bad_upload) = []"
    by simp
  from bad have b1: "status (snd (ServeHTTP example_handler example_bad_upload)) = Some 400"
    by simp
  from ok have o1: "write_calls (fst (ServeHTTP example_handler example_upload))
              = [\<lparr>fileId = ''tablefile01'', splitOffset = 0, numChunks = 3,
                  contentHash = ''hello'', body = ''hello'', contentLength = 5\<rparr>]"
    unfolding t parsed_call_example by (rule conjunct1)
  from ok have o2: "snd (ServeHTTP example_handler example_upload) = WriteHeader 200"
    unfolding t parsed_call_example by (simp add: example_store_def)
  have g': "dbCache example_failing_cache_handler
             (take (nat (LastIndex (TrimLeft (URL_Path example_upload) ''/'') (CHR ''/'')))
                (TrimLeft (URL_Path example_upload) ''/'')) []
              = Inl (ErrorString ''database not found'')"
    by (simp add: example_failing_cache_handler_def newTransferFileHandler_def)
  note T'' = ServeHTTP_validates_then_writes [OF m s, of example_failing_cache_handler]
  from T'' params_ok_example g'
  have f: "write_calls (fst (ServeHTTP example_failing_cache_handler example_upload)) = []
           \<and> snd (ServeHTTP example_failing_cache_handler example_upload)
             = http_Error ''Internal Server Error'' 500"
    by blast
  from f have f1: "write_calls (fst (ServeHTTP example_failing_cache_handler example_upload))
                     = []"
    by (rule conjunct1)
  from f have f2: "snd (ServeHTTP example_failing_cache_handler example_upload)
                     = http_Error ''Internal Server Error'' 500"
    by (rule conjunct2)
  from m0 s params_ok_example o1 o2 params_not_ok_example b0 b1 f1 f2 show ?thesis
    by (intro conjI)
qed

text \<open>
  The claim as the specification states it fails in two ways. \<open>ServeHTTP\<close> removes the
  leading slashes of the path before \<open>handleUpload\<close> looks for the last slash: the request
  \<open>POST /tablefile01\<close>, whose path contains a slash and whose parameters are all in
  order, is answered 400 with the reason \<open>Bad Request\<close>, which names no parameter, and
  \<open>WriteTableFile\<close> is not called. And a handler whose cache returns an error answers a
  request whose parameters are all in order with 500, without a call of
  \<open>WriteTableFile\<close>.
\<close>

theorem ServeHTTP_upload_counterexample:
  "Method example_short_upload = MethodPost
   \<and> CHR ''/'' \<in> set (URL_Path example_short_upload)
   \<and> params_ok example_short_upload
   \<and> ServeHTTP example_handler example_short_upload = ([], http_Error ''Bad Request'' 400)
   \<and> Method example_upload = MethodPost
   \<and> CHR ''/'' \<in> set (URL_Path example_upload)
   \<and> params_ok example_upload
   \<and> ServeHTTP example_failing_cache_handler example_upload
     = ([DBCacheGet ''srv/repo''], http_Error ''Internal Server Error'' 500)"
proof -
  have m: "Method example_short_upload = MethodPost"
    by (simp add: example_short_upload_def MethodPost_def)
  have s: "CHR ''/'' \<in> set (URL_Path example_short_upload)"
    by (simp add: example_short_upload_def)
  have t: "TrimLeft (URL_Path example_short_upload) ''/'' = ''tablefile01''"
    by (simp add: example_short_upload_def TrimLeft_def)
  have "handleUpload example_handler example_short_upload ''tablefile01''
          = ([], http_Error ''Bad Request'' StatusBadRequest)"
    by (rule handleUpload_no_slash) simp
  with m have 1: "ServeHTTP example_handler example_short_upload
                 = ([], http_Error ''Bad Request'' 400)"
    by (simp add: ServeHTTP_upload t StatusBadRequest_def)
  have m': "Method example_upload = MethodPost"
    by (simp add: example_upload_def MethodPost_def)
  have s': "CHR ''/'' \<in> set (URL_Path example_upload)"
    by (simp add: example_upload_def)
  have t': "TrimLeft (URL_Path example_upload) ''/'' = ''srv/repo/tablefile01''"
    by (simp add: example_upload_def TrimLeft_example)
  have p: "CHR ''/'' \<in> set ''srv/repo/tablefile01''" by simp
  have g: "dbCache example_failing_cache_handler
             (take (nat (LastIndex ''srv/repo/tablefile01'' (CHR ''/'')))
                ''srv/repo/tablefile01'') []
              = Inl (ErrorString ''database not found'')"
    by (simp add: example_failing_cache_handler_def newTransferFileHandler_def)
  have "handleUpload example_failing_cache_handler example_upload ''srv/repo/tablefile01''
          = ([DBCacheGet (take (nat (LastIndex ''srv/repo/tablefile01'' (CHR ''/'')))
                            ''srv/repo/tablefile01'')],
             http_Error ''Internal Server Error'' StatusInternalServerError)"
    using p params_ok_example g by (rule handleUpload_cache_error)
  then have "handleUpload example_failing_cache_handler example_upload
               ''srv/repo/tablefile01''
          = ([DBCacheGet ''srv/repo''], http_Error ''Internal Server Error'' 500)"
    unfolding LastIndex_example by (simp add: StatusInternalServerError_def)
  with m' have 2: "ServeHTTP example_failing_cache_handler example_upload
     = ([DBCacheGet ''srv/repo''], http_Error ''Internal Server Error'' 500)"
    by (simp add: ServeHTTP_upload t')
  from m s params_ok_short_example 1 m' s' params_ok_example 2 show ?thesis
    by (intro conjI)
qed

text \<open>
  Claim C8. For every request whose method is not GET, POST or PUT, \<open>ServeHTTP\<close>
  responds 405 Method Not Allowed and does nothing else: it opens no file and does not
  call \<open>WriteTableFile\<close>.
\<close>

theorem ServeHTTP_method_not_allowed:
  assumes "Method r \<noteq> MethodGet" and "Method r \<noteq> MethodPost" and "Method r \<noteq> MethodPut"
  shows "snd (ServeHTTP fh r) = http_Error ''Method Not Allowed'' 405
         \<and> fst (ServeHTTP fh r) = []"
  using assms by (simp add: ServeHTTP_def Let_def StatusMethodNotAllowed_def)

theorem ServeHTTP_method_not_allowed_witness:
  "snd (ServeHTTP example_handler example_delete) = http_Error ''Method Not Allowed'' 405
   \<and> fst (ServeHTTP example_handler example_delete) = []"
proof -
  have "Method example_delete \<noteq> MethodGet" and "Method example_delete \<noteq> MethodPost"
    and "Method example_delete \<noteq> MethodPut"
    by (simp_all add: example_delete_def MethodGet_def MethodPost_def MethodPut_def)
  then show ?thesis by (rule ServeHTTP_method_not_allowed)
qed

section \<open>Exit codes of the server command\<close>

text \<open>An error that reaches \<open>errCh\<close> is an error that one of the two servers returned.\<close>

lemma errCh_senders:
  "grpc_goroutine r = Some e \<Longrightarrow> \<exists>err. r = Some err \<and> e = Errorf_wrap ''gRPC server error'' err"
  "http_goroutine r = Some e \<Longrightarrow>
     \<exists>err. r = Some err \<and> err \<noteq> ErrServerClosed \<and> e = Errorf_wrap ''HTTP server error'' err"
  by (auto simp: grpc_goroutine_def http_goroutine_def split: option.splits if_splits)

lemma set_errCh:
  "set (errCh dEnv) =
     {e. \<exists>err. grpc_Serve dEnv = Some err \<and> e = Errorf_wrap ''gRPC server error'' err}
     \<union> {e. \<exists>err. http_Serve dEnv = Some err \<and> err \<noteq> ErrServerClosed
               \<and> e = Errorf_wrap ''HTTP server error'' err}"
  by (auto simp: errCh_def grpc_goroutine_def http_goroutine_def split: option.splits if_splits)

text \<open>The results of the \<open>select\<close>, as a set.\<close>

lemma set_select_cases:
  "set (select_cases dEnv) =
     {out. \<exists>err. grpc_Serve dEnv = Some err
             \<and> out = ([Fprintf (''gRPC server error: '' @ Error err @ [newline])], 1)}
     \<union> {out. \<exists>err. http_Serve dEnv = Some err \<and> err \<noteq> ErrServerClosed
             \<and> out = ([Fprintf (''HTTP server error: '' @ Error err @ [newline])], 1)}
     \<union> {out. out = ([], 0) \<and> (session_closed dEnv \<or> ctx_done dEnv)}"
  unfolding select_cases_def set_append set_map set_errCh
  by (auto simp: Errorf_wrap_def)

lemma Exec_serving:
  assumes "args_ok dEnv" and "\<not> DoltDB_nil dEnv" and "DBLoadError dEnv = None"
    and "smux_Server_err dEnv = None" and "is_RemoteSrvStore dEnv"
  shows "Exec dEnv = select_cases dEnv"
  using assms by (simp add: Exec_def)

lemma Exec_unloaded:
  assumes "args_ok dEnv" and "DoltDB_nil dEnv \<or> DBLoadError dEnv \<noteq> None"
  shows "Exec dEnv
           = [([Diagnostic (BuildDError ''failed to load database'' (DBLoadError dEnv))], 1)]"
  using assms by (auto simp: Exec_def HandleVErrAndExitCode_def)

text \<open>
  Every result of the server that has come to serve is exit code 0 with nothing written,
  after the session is closed or the context cancelled, or exit code 1 with the error
  of a server written to stderr.
\<close>

lemma Exec_results:
  assumes "args_ok dEnv" and "\<not> DoltDB_nil dEnv" and "DBLoadError dEnv = None"
    and "smux_Server_err dEnv = None" and "is_RemoteSrvStore dEnv"
  shows "set (Exec dEnv) =
     {out. \<exists>err. grpc_Serve dEnv = Some err
             \<and> out = ([Fprintf (''gRPC server error: '' @ Error err @ [newline])], 1)}
     \<union> {out. \<exists>err. http_Serve dEnv = Some err \<and> err \<noteq> ErrServerClosed
             \<and> out = ([Fprintf (''HTTP server error: '' @ Error err @ [newline])], 1)}
     \<union> {out. out = ([], 0) \<and> (session_closed dEnv \<or> ctx_done dEnv)}"
  unfolding Exec_serving [OF assms] by (rule set_select_cases)

text \<open>
  Claim C4, as amended. When the command line parses, the database is loaded, the mux
  session exists and the chunk store is a remote store: \<open>Exec\<close> returns 0, and writes
  nothing, when the close channel of the session has fired or the outer context is
  cancelled, provided that no server error is waiting on \<open>errCh\<close>; and \<open>Exec\<close> returns 1,
  with the line \<open>gRPC server error: <error>\<close> or \<open>HTTP server error: <error>\<close> written to
  stderr, when the gRPC server has returned an error or the HTTP server has returned an
  error other than \<open>http.ErrServerClosed\<close>, provided that the session is not closed and
  the context is not cancelled. When the command line parses and the database at the
  data directory failed to load, \<open>Exec\<close> returns 1 with the diagnostic
  \<open>failed to load database\<close> on stderr.
\<close>

theorem Exec_exit_codes:
  "(args_ok dEnv \<and> \<not> DoltDB_nil dEnv \<and> DBLoadError dEnv = None
      \<and> smux_Server_err dEnv = None \<and> is_RemoteSrvStore dEnv \<longrightarrow>
        ((session_closed dEnv \<or> ctx_done dEnv) \<and> grpc_Serve dEnv = None
           \<and> (http_Serve dEnv = None \<or> http_Serve dEnv = Some ErrServerClosed) \<longrightarrow>
            Exec dEnv \<noteq> [] \<and> set (Exec dEnv) = {([], 0)})
      \<and> (\<not> session_closed dEnv \<and> \<not> ctx_done dEnv
           \<and> (grpc_Serve dEnv \<noteq> None
              \<or> (\<exists>err. http_Serve dEnv = Some err \<and> err \<noteq> ErrServerClosed)) \<longrightarrow>
            Exec dEnv \<noteq> []
            \<and> (\<forall>out\<in>set (Exec dEnv).
                  (\<exists>err. grpc_Serve dEnv = Some err
                     \<and> out = ([Fprintf (''gRPC server error: '' @ Error err @ [newline])], 1))
                \<or> (\<exists>err. http_Serve dEnv = Some err \<and> err \<noteq> ErrServerClosed
                     \<and> out = ([Fprintf (''HTTP server error: '' @ Error err @ [newline])],
                              1)))))
   \<and> (args_ok dEnv \<and> (DoltDB_nil dEnv \<or> DBLoadError dEnv \<noteq> None) \<longrightarrow>
        Exec dEnv
          = [([Diagnostic (BuildDError ''failed to load database'' (DBLoadError dEnv))], 1)])"
proof (rule conjI, rule impI, intro conjI)
  show "args_ok dEnv \<and> (DoltDB_nil dEnv \<or> DBLoadError dEnv \<noteq> None) \<longrightarrow>
        Exec dEnv
          = [([Diagnostic (BuildDError ''failed to load database'' (DBLoadError dEnv))], 1)]"
    using Exec_unloaded by blast
next
  assume "args_ok dEnv \<and> \<not> DoltDB_nil dEnv \<and> DBLoadError dEnv = None
      \<and> smux_Server_err dEnv = None \<and> is_RemoteSrvStore dEnv"
  then have s: "set (Exec dEnv) =
     {out. \<exists>err. grpc_Serve dEnv = Some err
             \<and> out = ([Fprintf (''gRPC server error: '' @ Error err @ [newline])], 1)}
     \<union> {out. \<exists>err. http_Serve dEnv = Some err \<and> err \<noteq> ErrServerClosed
             \<and> out = ([Fprintf (''HTTP server error: '' @ Error err @ [newline])], 1)}
     \<union> {out. out = ([], 0) \<and> (session_closed dEnv \<or> ctx_done dEnv)}"
    using Exec_results by blast
  show "(session_closed dEnv \<or> ctx_done dEnv) \<and> grpc_Serve dEnv = None
           \<and> (http_Serve dEnv = None \<or> http_Serve dEnv = Some ErrServerClosed) \<longrightarrow>
            Exec dEnv \<noteq> [] \<and> set (Exec dEnv) = {([], 0)}"
  proof
    assume a: "(session_closed dEnv \<or> ctx_done dEnv) \<and> grpc_Serve dEnv = None
           \<and> (http_Serve dEnv = None \<or> http_Serve dEnv = Some ErrServerClosed)"
    then have 2: "set (Exec dEnv) = {([], 0)}" unfolding s by auto
    then have 1: "Exec dEnv \<noteq> []" by auto
    from 1 2 show "Exec dEnv \<noteq> [] \<and> set (Exec dEnv) = {([], 0)}" by (rule conjI)
  qed
  show "\<not> session_closed dEnv \<and> \<not> ctx_done dEnv
           \<and> (grpc_Serve dEnv \<noteq> None
              \<or> (\<exists>err. http_Serve dEnv = Some err \<and> err \<noteq> ErrServerClosed)) \<longrightarrow>
            Exec dEnv \<noteq> []
            \<and> (\<forall>out\<in>set (Exec dEnv).
                  (\<exists>err. grpc_Serve dEnv = Some err
                     \<and> out = ([Fprintf (''gRPC server error: '' @ Error err @ [newline])], 1))
                \<or> (\<exists>err. http_Serve dEnv = Some err \<and> err \<noteq> ErrServerClosed
                     \<and> out = ([Fprintf (''HTTP server error: '' @ Error err @ [newline])],
                              1)))"
  proof
    assume a: "\<not> session_closed dEnv \<and> \<not> ctx_done dEnv
           \<and> (grpc_Serve dEnv \<noteq> None
              \<or> (\<exists>err. http_Serve dEnv = Some err \<and> err \<noteq> ErrServerClosed))"
    then have "set (Exec dEnv) \<noteq> {}" unfolding s by auto
    then have 1: "Exec dEnv \<noteq> []" by auto
    from a have 2: "\<forall>out\<in>set (Exec dEnv).
                  (\<exists>err. grpc_Serve dEnv = Some err
                     \<and> out = ([Fprintf (''gRPC server error: '' @ Error err @ [newline])], 1))
                \<or> (\<exists>err. http_Serve dEnv = Some err \<and> err \<noteq> ErrServerClosed
                     \<and> out = ([Fprintf (''HTTP server error: '' @ Error err @ [newline])],
                              1))"
      unfolding s by blast
    from 1 2 show "Exec dEnv \<noteq> []
            \<and> (\<forall>out\<in>set (Exec dEnv).
                  (\<exists>err. grpc_Serve dEnv = Some err
                     \<and> out = ([Fprintf (''gRPC server error: '' @ Error err @ [newline])], 1))
                \<or> (\<exists>err. http_Serve dEnv = Some err \<and> err \<noteq> ErrServerClosed
                     \<and> out = ([Fprintf (''HTTP server error: '' @ Error err @ [newline])],
                              1)))"
      by (rule conjI)
  qed
qed

lemma example_exec_env_serving:
  "args_ok example_exec_env \<and> \<not> DoltDB_nil example_exec_env
   \<and> DBLoadError example_exec_env = None \<and> smux_Server_err example_exec_env = None
   \<and> is_RemoteSrvStore example_exec_env"
  by (simp add: example_exec_env_def)

lemma example_failing_env_serving:
  "args_ok example_failing_env \<and> \<not> DoltDB_nil example_failing_env
   \<and> DBLoadError example_failing_env = None \<and> smux_Server_err example_failing_env = None
   \<and> is_RemoteSrvStore example_failing_env"
  by (simp add: example_failing_env_def)

theorem Exec_exit_codes_witness:
  "Exec example_exec_env \<noteq> []
   \<and> set (Exec example_exec_env) = {([], 0)}
   \<and> Exec example_failing_env \<noteq> []
   \<and> set (Exec example_failing_env)
       = {([Fprintf (''gRPC server error: EOF'' @ [newline])], 1)}
   \<and> Exec example_unloaded_env
     = [([Diagnostic (BuildDError ''failed to load database''
                        (Some (ErrorString ''no such file or directory'')))], 1)]"
proof -
  have c1: "(session_closed example_exec_env \<or> ctx_done example_exec_env)
            \<and> grpc_Serve example_exec_env = None
            \<and> (http_Serve example_exec_env = None
               \<or> http_Serve example_exec_env = Some ErrServerClosed)"
    by (simp add: example_exec_env_def)
  from Exec_exit_codes [of example_exec_env] example_exec_env_serving c1
  have a: "Exec example_exec_env \<noteq> [] \<and> set (Exec example_exec_env) = {([], 0)}"
    by blast
  have c3: "\<not> session_closed example_failing_env \<and> \<not> ctx_done example_failing_env
            \<and> (grpc_Serve example_failing_env \<noteq> None
               \<or> (\<exists>err. http_Serve example_failing_env = Some err \<and> err \<noteq> ErrServerClosed))"
    by (simp add: example_failing_env_def)
  from Exec_exit_codes [of example_failing_env] example_failing_env_serving c3
  have c: "Exec example_failing_env \<noteq> []"
    and d: "\<forall>out\<in>set (Exec example_failing_env).
              (\<exists>err. grpc_Serve example_failing_env = Some err
                 \<and> out = ([Fprintf (''gRPC server error: '' @ Error err @ [newline])], 1))
            \<or> (\<exists>err. http_Serve example_failing_env = Some err \<and> err \<noteq> ErrServerClosed
                 \<and> out = ([Fprintf (''HTTP server error: '' @ Error err @ [newline])], 1))"
    by blast+
  have g: "grpc_Serve example_failing_env = Some (ErrorString ''EOF'')"
    and h: "http_Serve example_failing_env = None"
    by (simp_all add: example_failing_env_def)
  from d have sub: "set (Exec example_failing_env)
                      \<subseteq> {([Fprintf (''gRPC server error: EOF'' @ [newline])], 1)}"
    unfolding g h by auto
  from c have "set (Exec example_failing_env) \<noteq> {}" by simp
  with sub have e: "set (Exec example_failing_env)
                      = {([Fprintf (''gRPC server error: EOF'' @ [newline])], 1)}"
    by (auto dest: subset_singletonD)
  have down: "args_ok example_unloaded_env
              \<and> (DoltDB_nil example_unloaded_env \<or> DBLoadError example_unloaded_env \<noteq> None)"
    by (simp add: example_unloaded_env_def)
  from Exec_exit_codes [of example_unloaded_env] down
  have "Exec example_unloaded_env
          = [([Diagnostic (BuildDError ''failed to load database''
                             (DBLoadError example_unloaded_env))], 1)]"
    by blast
  then have f: "Exec example_unloaded_env
     = [([Diagnostic (BuildDError ''failed to load database''
                        (Some (ErrorString ''no such file or directory'')))], 1)]"
    by (simp add: example_unloaded_env_def)
  from a c e f show ?thesis by blast
qed

text \<open>
  The claim as the specification states it fails in two ways. The HTTP goroutine does
  not report \<open>http.ErrServerClosed\<close>: when the HTTP server has returned that error and the
  context is cancelled, \<open>Exec\<close> returns 0 and nothing else. And the \<open>select\<close> takes any
  case that is ready: when the session is closed and the gRPC server has returned,
  as it does once its listener fails, \<open>Exec\<close> can write \<open>gRPC server error: EOF\<close> and
  return 1 although the close channel has fired.
\<close>

theorem Exec_exit_codes_counterexample:
  "args_ok example_shutdown_env \<and> \<not> DoltDB_nil example_shutdown_env
   \<and> DBLoadError example_shutdown_env = None
   \<and> http_Serve example_shutdown_env = Some ErrServerClosed
   \<and> Exec example_shutdown_env = [([], 0)]
   \<and> args_ok example_disconnect_env \<and> \<not> DoltDB_nil example_disconnect_env
   \<and> DBLoadError example_disconnect_env = None
   \<and> session_closed example_disconnect_env
   \<and> ([Fprintf (''gRPC server error: EOF'' @ [newline])], 1)
       \<in> set (Exec example_disconnect_env)"
  by (simp add: example_shutdown_env_def example_disconnect_env_def Exec_def
      select_cases_def errCh_def grpc_goroutine_def http_goroutine_def Errorf_wrap_def)

end
